theory Spec2Isabelle
  imports Complex_Main
begin

section \<open>Data model of the single-file analysis (coding_quality_checker_EN.py)\<close>

text \<open>
  A cell of the parsed table is what pandas holds for one field: a string, a number, or
  the missing value NaN. Column labels are the integer positions that
  \<^verbatim>\<open>read_csv(..., header=None)\<close> assigns, or a name (the renamed \<^verbatim>\<open>'comment'\<close> column).
  A DataFrame is its column labels and its rows, every row carrying its index label.
  Fractions (the disagreement rate) are exact rationals.
\<close>

datatype cell = Str string | Num rat | NaN

datatype label = Col nat | Named string

datatype verr = EmptyFile | MissingColumns | InvalidFormat | NoValidData

datatype error = FileNotFoundError | ReadFailure | ValueError verr | KeyError | NameError

record dataframe =
  columns :: "label list"
  rows :: "(nat \<times> cell list) list"

fun index_of :: "'a \<Rightarrow> 'a list \<Rightarrow> nat option" where
  "index_of x [] = None"
| "index_of x (y # ys) = (if x = y then Some 0 else map_option Suc (index_of x ys))"

text \<open>A row shorter than the header is padded with NaN, as the parser does.\<close>

definition cell_at :: "cell list \<Rightarrow> nat \<Rightarrow> cell" where
  "cell_at cs k = (if k < length cs then cs ! k else NaN)"

text \<open>\<^verbatim>\<open>row[col]\<close>: a label that is not a column raises KeyError.\<close>

definition row_get :: "label list \<Rightarrow> cell list \<Rightarrow> label \<Rightarrow> error + cell" where
  "row_get cols cs c =
     (case index_of c cols of None \<Rightarrow> Inl KeyError | Some k \<Rightarrow> Inr (cell_at cs k))"

text \<open>
  Python's \<^verbatim>\<open>!=\<close> on two cells: NaN differs from everything, itself included.
\<close>

fun py_ne :: "cell \<Rightarrow> cell \<Rightarrow> bool" where
  "py_ne NaN _ = True"
| "py_ne _ NaN = True"
| "py_ne a b = (a \<noteq> b)"

text \<open>
  \<^verbatim>\<open>row[col] in valid_categories\<close>, the categories being strings: only a string cell
  can be a member.
\<close>

definition in_categories :: "cell \<Rightarrow> string list \<Rightarrow> bool" where
  "in_categories v cats = (case v of Str s \<Rightarrow> s \<in> set cats | _ \<Rightarrow> False)"

section \<open>validate_data\<close>

text \<open>
  \<^verbatim>\<open>all(row[col] in valid_categories for col in ai_columns + [human_column])\<close>:
  the generator stops at the first value that is not a category.
\<close>

fun all_in :: "label list \<Rightarrow> cell list \<Rightarrow> string list \<Rightarrow> label list \<Rightarrow> error + bool" where
  "all_in cols cs cats [] = Inr True"
| "all_in cols cs cats (c # rest) =
     (case row_get cols cs c of
        Inl e \<Rightarrow> Inl e
      | Inr v \<Rightarrow> if in_categories v cats then all_in cols cs cats rest else Inr False)"

text \<open>\<^verbatim>\<open>[row[col] for col in ai_columns + [human_column]]\<close>\<close>

fun row_values :: "label list \<Rightarrow> cell list \<Rightarrow> label list \<Rightarrow> error + cell list" where
  "row_values cols cs [] = Inr []"
| "row_values cols cs (c # rest) =
     (case row_get cols cs c of
        Inl e \<Rightarrow> Inl e
      | Inr v \<Rightarrow> (case row_values cols cs rest of
                    Inl e \<Rightarrow> Inl e
                  | Inr vs \<Rightarrow> Inr (v # vs)))"

text \<open>
  The outcome of the validation: \<open>Passed\<close> is the return value True;
  \<open>Rejected n vs\<close> is the printed line "Error: Row n contains invalid values: vs"
  followed by the return value False.
\<close>

datatype validation = Passed | Rejected nat "cell list"

fun validate_rows ::
  "label list \<Rightarrow> string list \<Rightarrow> label list \<Rightarrow> (nat \<times> cell list) list \<Rightarrow> error + validation" where
  "validate_rows cols cats sel [] = Inr Passed"
| "validate_rows cols cats sel ((i, cs) # rest) =
     (case all_in cols cs cats sel of
        Inl e \<Rightarrow> Inl e
      | Inr ok \<Rightarrow>
          if ok then validate_rows cols cats sel rest
          else (case row_values cols cs sel of
                  Inl e \<Rightarrow> Inl e
                | Inr vs \<Rightarrow> Inr (Rejected (i + 1) vs)))"

definition validate_data ::
  "dataframe \<Rightarrow> label list \<Rightarrow> label \<Rightarrow> string list \<Rightarrow> error + validation" where
  "validate_data df ai_columns human_column valid_categories =
     validate_rows (columns df) valid_categories (ai_columns @ [human_column]) (rows df)"

section \<open>calculate_ai_human_disagreement_rate\<close>

text \<open>\<^verbatim>\<open>df[col].values\<close> and \<^verbatim>\<open>df[cols].values\<close> (one list per row).\<close>

definition get_column :: "dataframe \<Rightarrow> label \<Rightarrow> error + cell list" where
  "get_column df c =
     (case index_of c (columns df) of
        None \<Rightarrow> Inl KeyError
      | Some k \<Rightarrow> Inr (map (\<lambda>r. cell_at (snd r) k) (rows df)))"

fun positions :: "label list \<Rightarrow> label list \<Rightarrow> error + nat list" where
  "positions cols [] = Inr []"
| "positions cols (c # rest) =
     (case index_of c cols of
        None \<Rightarrow> Inl KeyError
      | Some k \<Rightarrow> (case positions cols rest of
                     Inl e \<Rightarrow> Inl e
                   | Inr ks \<Rightarrow> Inr (k # ks)))"

definition get_columns :: "dataframe \<Rightarrow> label list \<Rightarrow> error + cell list list" where
  "get_columns df cs =
     (case positions (columns df) cs of
        Inl e \<Rightarrow> Inl e
      | Inr ks \<Rightarrow> Inr (map (\<lambda>r. map (cell_at (snd r)) ks) (rows df)))"

text \<open>
  \<^verbatim>\<open>df.get('comment', pd.Series(["No comment available"] * len(df))).values\<close>
\<close>

definition get_comments :: "dataframe \<Rightarrow> cell list" where
  "get_comments df =
     (case index_of (Named ''comment'') (columns df) of
        None \<Rightarrow> replicate (length (rows df)) (Str ''No comment available'')
      | Some k \<Rightarrow> map (\<lambda>r. cell_at (snd r) k) (rows df))"

type_synonym disagreement_case = "nat \<times> cell \<times> cell list \<times> cell"

text \<open>
  One pass of the loop over \<^verbatim>\<open>range(len(ai_codes))\<close>; the state is the pair
  (disagreement_count, ai_human_disagreements).
\<close>

definition disagreement_step ::
  "cell list list \<Rightarrow> cell list \<Rightarrow> cell list \<Rightarrow> nat \<times> disagreement_case list \<Rightarrow> nat
     \<Rightarrow> nat \<times> disagreement_case list" where
  "disagreement_step ai_codes human_codes comments st i =
     (let human_code = human_codes ! i;
          ai_row = ai_codes ! i
      in if list_ex (\<lambda>ai_code. py_ne ai_code human_code) ai_row
         then (fst st + 1, snd st @ [(i + 1, comments ! i, ai_row, human_code)])
         else st)"

definition calculate_ai_human_disagreement_rate ::
  "dataframe \<Rightarrow> label list \<Rightarrow> label \<Rightarrow> error + (rat \<times> nat \<times> nat \<times> disagreement_case list)" where
  "calculate_ai_human_disagreement_rate df ai_columns human_column =
     (case get_columns df ai_columns of
        Inl e \<Rightarrow> Inl e
      | Inr ai_codes \<Rightarrow>
     (case get_column df human_column of
        Inl e \<Rightarrow> Inl e
      | Inr human_codes \<Rightarrow>
          let comments = get_comments df;
              total_cases = length (rows df);
              st = foldl (disagreement_step ai_codes human_codes comments) (0, [])
                     [0..<length ai_codes];
              disagreement_count = fst st;
              disagreement_rate =
                (if total_cases > 0 then of_nat disagreement_count / of_nat total_cases else 0)
          in Inr (disagreement_rate, disagreement_count, total_cases, snd st)))"

text \<open>The table of end-to-end scenario 1: three raters, then the reference.\<close>

definition scenario_1 :: dataframe where
  "scenario_1 =
     \<lparr>columns = [Col 0, Col 1, Col 2, Col 3],
      rows = [(0, [Str ''a'', Str ''a'', Str ''a'', Str ''a'']),
              (1, [Str ''a'', Str ''b'', Str ''a'', Str ''a'']),
              (2, [Str ''b'', Str ''b'', Str ''b'', Str ''b'']),
              (3, [Str ''a'', Str ''a'', Str ''b'', Str ''a''])]\<rparr>"

section \<open>Cohen's Kappa\<close>

text \<open>
  Modelled from the spec: \<^verbatim>\<open>cohen_kappa_score\<close> is imported from scikit-learn and is
  not part of the sources. The spec gives the unweighted coefficient over nominal codes:
  agreement probability minus expected-by-chance agreement probability, divided by one
  minus expected-by-chance agreement probability, and undefined where that divisor is zero.
  The arithmetic is exact; \<open>None\<close> is the undefined value (NaN in the program). The two
  series are columns of one table, so they have the same, positive length.
\<close>

definition agreement_probability :: "cell list \<Rightarrow> cell list \<Rightarrow> rat" where
  "agreement_probability y1 y2 =
     of_nat (length (filter (\<lambda>p. fst p = snd p) (zip y1 y2))) / of_nat (length y1)"

definition chance_agreement :: "cell list \<Rightarrow> cell list \<Rightarrow> rat" where
  "chance_agreement y1 y2 =
     (\<Sum>k \<leftarrow> remdups (y1 @ y2).
        (of_nat (count_list y1 k) / of_nat (length y1)) *
        (of_nat (count_list y2 k) / of_nat (length y2)))"

definition cohen_kappa_score :: "cell list \<Rightarrow> cell list \<Rightarrow> rat option" where
  "cohen_kappa_score y1 y2 =
     (let p_o = agreement_probability y1 y2;
          p_e = chance_agreement y1 y2
      in if 1 - p_e = 0 then None else Some ((p_o - p_e) / (1 - p_e)))"

section \<open>calculate_inter_rater_reliability\<close>

text \<open>\<^verbatim>\<open>ai_codes[:, i]\<close>\<close>

definition column_of :: "cell list list \<Rightarrow> nat \<Rightarrow> cell list" where
  "column_of ai_codes i = map (\<lambda>r. r ! i) ai_codes"

text \<open>\<^verbatim>\<open>np.mean\<close>: NaN for an empty list, and NaN as soon as one value is NaN.\<close>

definition np_mean :: "rat option list \<Rightarrow> rat option" where
  "np_mean ks =
     (if ks = [] \<or> None \<in> set ks then None
      else Some (sum_list (map the ks) / of_nat (length ks)))"

text \<open>Assignment to a key of a Python dict, which keeps insertion order.\<close>

fun dict_set :: "'k \<Rightarrow> 'v \<Rightarrow> ('k \<times> 'v) list \<Rightarrow> ('k \<times> 'v) list" where
  "dict_set k v [] = [(k, v)]"
| "dict_set k v ((k', v') # r) = (if k = k' then (k, v) # r else (k', v') # dict_set k v r)"

type_synonym internal_case = "nat \<times> cell \<times> cell list"

record reliability =
  inter_mean_kappa :: "rat option"
  inter_kappas :: "rat option list"
  intra_mean_kappa :: "rat option"
  intra_kappas :: "rat option list"
  ai_internal_disagreements :: "internal_case list"
  coder_mean_kappa :: "(label \<times> rat option) list"
  ai_human_disagreement_info :: "rat \<times> nat \<times> nat \<times> disagreement_case list"

text \<open>
  The rows whose rater codes are not all the same, \<^verbatim>\<open>len(set(ai_codes[i])) > 1\<close>,
  with their 1-based positions.
\<close>

definition internal_disagreements :: "cell list list \<Rightarrow> cell list \<Rightarrow> internal_case list" where
  "internal_disagreements ai_codes comments =
     map (\<lambda>i. (i + 1, comments ! i, ai_codes ! i))
       (filter (\<lambda>i. length (remdups (ai_codes ! i)) > 1) [0..<length ai_codes])"

definition calculate_inter_rater_reliability ::
  "dataframe \<Rightarrow> label list \<Rightarrow> label \<Rightarrow> error + reliability" where
  "calculate_inter_rater_reliability df ai_columns human_column =
     (case get_columns df ai_columns of
        Inl e \<Rightarrow> Inl e
      | Inr ai_codes \<Rightarrow>
     (case get_column df human_column of
        Inl e \<Rightarrow> Inl e
      | Inr human_codes \<Rightarrow>
          let comments = get_comments df;
              n = length ai_columns;
              inter = map (\<lambda>i. cohen_kappa_score human_codes (column_of ai_codes i)) [0..<n];
              intra = concat (map (\<lambda>i. map (\<lambda>j. cohen_kappa_score (column_of ai_codes i)
                                                     (column_of ai_codes j)) [i + 1..<n]) [0..<n]);
              coder = foldl (\<lambda>d i.
                        dict_set (ai_columns ! i)
                          (np_mean (map (\<lambda>j. cohen_kappa_score (column_of ai_codes i)
                                                (column_of ai_codes j))
                                      (filter (\<lambda>j. j \<noteq> i) [0..<n]) @
                                    [cohen_kappa_score (column_of ai_codes i) human_codes])) d)
                        [] [0..<n]
          in (case calculate_ai_human_disagreement_rate df ai_columns human_column of
                Inl e \<Rightarrow> Inl e
              | Inr info \<Rightarrow>
                  Inr \<lparr>inter_mean_kappa = np_mean inter,
                       inter_kappas = inter,
                       intra_mean_kappa = (if intra = [] then Some 0 else np_mean intra),
                       intra_kappas = intra,
                       ai_internal_disagreements = internal_disagreements ai_codes comments,
                       coder_mean_kappa = coder,
                       ai_human_disagreement_info = info\<rparr>)))"

section \<open>clean_path\<close>

text \<open>
  A path is a sequence of Unicode code points. \<open>clean_path\<close> is three calls into the
  Python runtime, none of which is part of the sources. The Unicode database (NFKC
  normalisation and the general category of a character) is a parameter of the model.
\<close>

type_synonym ustring = "nat list"

definition ustr :: "string \<Rightarrow> ustring" where
  "ustr s = map of_char s"

record unicode_db =
  normalize_NFKC :: "ustring \<Rightarrow> ustring"
  category_C :: "nat \<Rightarrow> bool"

text \<open>
  Modelled from the spec: the spec asks for the path to be normalized, and the code calls
  \<^verbatim>\<open>os.path.normpath\<close>, which belongs to the Python standard library and is not part
  of the sources. The definitions below follow its POSIX implementation
  (\<^verbatim>\<open>posixpath.normpath\<close>): split at "/", drop empty and "." components, let ".."
  cancel the component before it, keep one or two initial slashes, join with "/", and
  give "." for an empty result. \<open>split_on\<close> and \<open>join\<close> are
  \<^verbatim>\<open>path.split('/')\<close> and \<^verbatim>\<open>'/'.join(comps)\<close>.
\<close>

fun split_on :: "'a \<Rightarrow> 'a list \<Rightarrow> 'a list list" where
  "split_on s [] = [[]]"
| "split_on s (c # cs) =
     (if c = s then [] # split_on s cs
      else (case split_on s cs of [] \<Rightarrow> [[c]] | p # ps \<Rightarrow> (c # p) # ps))"

fun join :: "'a \<Rightarrow> 'a list list \<Rightarrow> 'a list" where
  "join s [] = []"
| "join s [p] = p"
| "join s (p # q # ps) = p @ s # join s (q # ps)"

definition sep :: nat where "sep = 47"

definition dot :: ustring where "dot = [46]"

definition dotdot :: ustring where "dotdot = [46, 46]"

definition startswith :: "'a list \<Rightarrow> 'a list \<Rightarrow> bool" where
  "startswith s p = (take (length p) s = p)"

text \<open>The body of the loop over the components; the state is \<^verbatim>\<open>new_comps\<close>.\<close>

definition normpath_step :: "nat \<Rightarrow> ustring list \<Rightarrow> ustring \<Rightarrow> ustring list" where
  "normpath_step initial_slashes new_comps part =
     (if part = [] \<or> part = dot then new_comps
      else if part \<noteq> dotdot \<or> (initial_slashes = 0 \<and> new_comps = []) \<or>
              (new_comps \<noteq> [] \<and> last new_comps = dotdot)
      then new_comps @ [part]
      else if new_comps \<noteq> [] then butlast new_comps
      else new_comps)"

definition normpath :: "ustring \<Rightarrow> ustring" where
  "normpath path =
     (if path = [] then dot
      else
        let initial_slashes =
              (if startswith path [sep]
               then (if startswith path [sep, sep] \<and> \<not> startswith path [sep, sep, sep]
                     then 2 else 1)
               else 0);
            comps = foldl (normpath_step initial_slashes) [] (split_on sep path);
            joined = join sep comps;
            result = (if initial_slashes \<noteq> 0 then replicate initial_slashes sep @ joined
                      else joined)
        in if result = [] then dot else result)"

definition clean_path :: "unicode_db \<Rightarrow> ustring \<Rightarrow> ustring" where
  "clean_path db path =
     (let cleaned = normalize_NFKC db path;
          cleaned = filter (\<lambda>c. \<not> category_C db c) cleaned;
          cleaned = normpath cleaned
      in cleaned)"

section \<open>DataFrame operations used by analyze_coding_agreement\<close>

definition pad :: "nat \<Rightarrow> cell list \<Rightarrow> cell list" where
  "pad n cs = cs @ replicate (n - length cs) NaN"

text \<open>
  The frame that \<^verbatim>\<open>read_csv(..., header=None)\<close> builds from the parsed fields: the
  columns are labelled 0, 1, ... (as many as the first line has fields), the rows
  0, 1, ... (a RangeIndex).
\<close>

definition frame_of :: "cell list list \<Rightarrow> dataframe" where
  "frame_of t =
     (let w = (case t of [] \<Rightarrow> 0 | r # _ \<Rightarrow> length r)
      in \<lparr>columns = map Col [0..<w], rows = zip [0..<length t] (map (pad w) t)\<rparr>)"

text \<open>\<^verbatim>\<open>df.empty\<close>: no rows or no columns.\<close>

definition df_empty :: "dataframe \<Rightarrow> bool" where
  "df_empty df = (rows df = [] \<or> columns df = [])"

text \<open>\<^verbatim>\<open>df.rename(columns={old: new})\<close>\<close>

definition rename_column :: "dataframe \<Rightarrow> label \<Rightarrow> label \<Rightarrow> dataframe" where
  "rename_column df old new = df\<lparr>columns := map (\<lambda>l. if l = old then new else l) (columns df)\<rparr>"

text \<open>
  \<^verbatim>\<open>df[c] = values\<close>: overwrites the column \<open>c\<close>, or appends it when the frame has
  no such column.
\<close>

definition set_column :: "dataframe \<Rightarrow> label \<Rightarrow> cell list \<Rightarrow> dataframe" where
  "set_column df c vs =
     (case index_of c (columns df) of
        None \<Rightarrow>
          df\<lparr>columns := columns df @ [c],
             rows := map (\<lambda>p. (fst (fst p), pad (length (columns df)) (snd (fst p)) @ [snd p]))
                       (zip (rows df) vs)\<rparr>
      | Some k \<Rightarrow>
          df\<lparr>rows := map (\<lambda>p. (fst (fst p), (pad (length (columns df)) (snd (fst p)))[k := snd p]))
                       (zip (rows df) vs)\<rparr>)"

text \<open>
  \<^verbatim>\<open>df.dropna(subset=cols)\<close>: the rows with no NaN in the columns \<open>cols\<close>, under the
  index labels they had.
\<close>

definition dropna :: "dataframe \<Rightarrow> label list \<Rightarrow> error + dataframe" where
  "dropna df cols =
     (case positions (columns df) cols of
        Inl e \<Rightarrow> Inl e
      | Inr ks \<Rightarrow>
          Inr (df\<lparr>rows := filter (\<lambda>r. list_all (\<lambda>k. cell_at (snd r) k \<noteq> NaN) ks) (rows df)\<rparr>))"

text \<open>\<^verbatim>\<open>df.loc[l, c]\<close>: the row is found by its index label, not by its position.\<close>

definition loc :: "dataframe \<Rightarrow> nat \<Rightarrow> label \<Rightarrow> error + cell" where
  "loc df l c =
     (case find (\<lambda>r. fst r = l) (rows df) of
        None \<Rightarrow> Inl KeyError
      | Some r \<Rightarrow> row_get (columns df) (snd r) c)"

section \<open>analyze_coding_agreement\<close>

text \<open>
  What the file system and the CSV parser answer for a path is the environment of a run.
\<close>

datatype read_result = UnicodeDecodeError | ReadException | Parsed "cell list list"

record env =
  unicode :: unicode_db
  path_exists :: "ustring \<Rightarrow> bool"
  read_csv :: "ustring \<Rightarrow> string \<Rightarrow> string \<Rightarrow> read_result"

text \<open>Lines 96-116: the cleaned path and the loaded, non-empty frame.\<close>

definition load :: "env \<Rightarrow> ustring \<Rightarrow> string \<Rightarrow> string \<Rightarrow> error + (ustring \<times> dataframe)" where
  "load env file_path delimiter encoding =
     (let file_path = clean_path (unicode env) file_path
      in if \<not> path_exists env file_path then Inl FileNotFoundError
         else
           (case (case read_csv env file_path delimiter encoding of
                    Parsed t \<Rightarrow> Inr (frame_of t)
                  | UnicodeDecodeError \<Rightarrow>
                      (case read_csv env file_path delimiter ''gbk'' of
                         Parsed t \<Rightarrow> Inr (frame_of t)
                       | _ \<Rightarrow> Inl ReadFailure)
                  | ReadException \<Rightarrow> Inl ReadFailure) of
              Inl e \<Rightarrow> Inl e
            | Inr df \<Rightarrow> if df_empty df then Inl (ValueError EmptyFile) else Inr (file_path, df)))"

text \<open>Lines 118-125: the default selectors and the check that every selector is a column.\<close>

definition select_columns ::
  "dataframe \<Rightarrow> label list option \<Rightarrow> label option \<Rightarrow> error + (label list \<times> label)" where
  "select_columns df ai_columns human_column =
     (let ai_columns = (case ai_columns of None \<Rightarrow> take 5 (columns df) | Some cs \<Rightarrow> cs);
          human_column = (case human_column of None \<Rightarrow> last (columns df) | Some c \<Rightarrow> c)
      in if list_all (\<lambda>col. col \<in> set (columns df)) (ai_columns @ [human_column])
         then Inr (ai_columns, human_column)
         else Inl (ValueError MissingColumns))"

text \<open>The truth value of a column label: the integer 0 and the empty string are false.\<close>

definition truthy :: "label \<Rightarrow> bool" where
  "truthy l = (case l of Col n \<Rightarrow> n \<noteq> 0 | Named s \<Rightarrow> s \<noteq> [])"

text \<open>Lines 127-132: the comment column.\<close>

definition assign_comment :: "dataframe \<Rightarrow> label list \<Rightarrow> label \<Rightarrow> dataframe" where
  "assign_comment df ai_columns human_column =
     (let comment_column =
            (if length (columns df) > length ai_columns + 1 then Some (last (columns df))
             else None)
      in case comment_column of
           None \<Rightarrow>
             set_column df (Named ''comment'')
               (replicate (length (rows df)) (Str ''No comment available''))
         | Some c \<Rightarrow>
             if truthy c \<and> c \<noteq> human_column then rename_column df c (Named ''comment'')
             else set_column df (Named ''comment'')
                    (replicate (length (rows df)) (Str ''No comment available'')))"

text \<open>
  The written report, as the values its lines show. A listed case is
  (row number, AI codes, human code, comment, final code). The date, the file name and
  the mean and standard deviation over the coders' averages are left out.
\<close>

type_synonym report_case = "nat \<times> cell list \<times> cell \<times> cell \<times> cell"

record report =
  rep_total_cases :: nat
  rep_ai_coders :: nat
  rep_inter_mean_kappa :: "rat option"
  rep_inter_kappas :: "rat option list"
  rep_intra_mean_kappa :: "rat option"
  rep_intra_kappas :: "rat option list"
  rep_coder_mean_kappa :: "(label \<times> rat option) list"
  rep_disagreement_rate :: rat
  rep_disagreement_count :: nat
  rep_internal_disagreement :: nat
  rep_internal_agreement :: nat
  rep_perfect_agreement :: nat
  rep_ai_human_cases :: "report_case list"
  rep_internal_cases :: "report_case list"

text \<open>
  Lines 248-255: the human code and the final code of an internal disagreement case are
  both read back with \<^verbatim>\<open>df.loc[idx-1, human_column]\<close>.
\<close>

fun internal_case_lines ::
  "dataframe \<Rightarrow> label \<Rightarrow> internal_case list \<Rightarrow> error + report_case list" where
  "internal_case_lines df human_column [] = Inr []"
| "internal_case_lines df human_column ((idx, comment, ai_codes) # rest) =
     (case loc df (idx - 1) human_column of
        Inl e \<Rightarrow> Inl e
      | Inr human_code \<Rightarrow>
          (case internal_case_lines df human_column rest of
             Inl e \<Rightarrow> Inl e
           | Inr ls \<Rightarrow> Inr ((idx, ai_codes, human_code, comment, human_code) # ls)))"

text \<open>Lines 205-257.\<close>

definition write_report ::
  "dataframe \<Rightarrow> label list \<Rightarrow> label \<Rightarrow> reliability \<Rightarrow> error + report" where
  "write_report df ai_columns human_column rel =
     (let info = ai_human_disagreement_info rel;
          ai_human_disagreement_rate = fst info;
          ai_human_disagreement_count = fst (snd info);
          total_cases = fst (snd (snd info));
          ai_human_disagreements = snd (snd (snd info));
          ai_internal_unanimous = length (rows df) - length (ai_internal_disagreements rel);
          ai_human_agreement = total_cases - ai_human_disagreement_count
      in case internal_case_lines df human_column (ai_internal_disagreements rel) of
           Inl e \<Rightarrow> Inl e
         | Inr internal_lines \<Rightarrow>
             Inr \<lparr>rep_total_cases = total_cases,
                  rep_ai_coders = length ai_columns,
                  rep_inter_mean_kappa = inter_mean_kappa rel,
                  rep_inter_kappas = inter_kappas rel,
                  rep_intra_mean_kappa = intra_mean_kappa rel,
                  rep_intra_kappas = intra_kappas rel,
                  rep_coder_mean_kappa = coder_mean_kappa rel,
                  rep_disagreement_rate = ai_human_disagreement_rate,
                  rep_disagreement_count = ai_human_disagreement_count,
                  rep_internal_disagreement = length (ai_internal_disagreements rel),
                  rep_internal_agreement = ai_internal_unanimous,
                  rep_perfect_agreement = ai_human_agreement,
                  rep_ai_human_cases =
                    map (\<lambda>c. (fst c, fst (snd (snd c)), snd (snd (snd c)), fst (snd c),
                              snd (snd (snd c)))) ai_human_disagreements,
                  rep_internal_cases = internal_lines\<rparr>)"

text \<open>\<^verbatim>\<open>file_path.rsplit('.', 1)[0]\<close>\<close>

definition rsplit_dot :: "ustring \<Rightarrow> ustring" where
  "rsplit_dot p = (if 46 \<in> set p then rev (tl (dropWhile (\<lambda>c. c \<noteq> 46) (rev p))) else p)"

text \<open>
  A row of the results CSV: (row label, final_coding, ai_human_agreement,
  ai_internal_agreement, comment, the coders' columns).

  Lines 261-266 build the frame of these rows. The two flag columns are list
  comprehensions over \<^verbatim>\<open>range(len(df))\<close> that read the local names
  \<^verbatim>\<open>human_codes\<close> and \<^verbatim>\<open>ai_codes\<close>. Both are assigned only afterwards, at lines
  268-269 (\<^verbatim>\<open>human_codes\<close> nowhere else in the function), so for the first row the
  read of \<^verbatim>\<open>human_codes\<close> raises NameError (an UnboundLocalError). A frame without
  rows would give empty flag columns.
\<close>

type_synonym csv_row = "nat \<times> cell \<times> bool \<times> bool \<times> cell \<times> cell list"

definition result_rows :: "dataframe \<Rightarrow> label list \<Rightarrow> label \<Rightarrow> error + csv_row list" where
  "result_rows df ai_columns human_column = (if rows df = [] then Inr [] else Inl NameError)"

datatype artifact = ReportFile ustring "error + report" | CsvFile ustring "csv_row list"

type_synonym returned =
  "rat option \<times> rat option list \<times> rat option \<times> rat option list \<times> internal_case list \<times>
   (rat \<times> nat \<times> nat \<times> disagreement_case list)"

text \<open>
  A run: the diagnostic line of the validation when it was printed (row number and
  values), the files written, and either the exception raised or the value returned.
\<close>

record run =
  printed :: "(nat \<times> cell list) option"
  files :: "artifact list"
  outcome :: "error + (dataframe \<times> returned)"

definition raise :: "error \<Rightarrow> run" where
  "raise e = \<lparr>printed = None, files = [], outcome = Inl e\<rparr>"

text \<open>
  Lines 134-279, on the frame with its comment column: validation, the removal of
  missing values, the statistics, the report and the CSV.
\<close>

definition analyze_frame ::
  "ustring \<Rightarrow> dataframe \<Rightarrow> label list \<Rightarrow> label \<Rightarrow> string list \<Rightarrow> run" where
  "analyze_frame file_path df ai_columns human_column valid_categories =
     (case validate_data df ai_columns human_column valid_categories of
        Inl e \<Rightarrow> raise e
      | Inr (Rejected n vs) \<Rightarrow>
          \<lparr>printed = Some (n, vs), files = [], outcome = Inl (ValueError InvalidFormat)\<rparr>
      | Inr Passed \<Rightarrow>
     (case dropna df (ai_columns @ [human_column]) of
        Inl e \<Rightarrow> raise e
      | Inr df \<Rightarrow>
          if df_empty df then raise (ValueError NoValidData)
          else
     (case calculate_inter_rater_reliability df ai_columns human_column of
        Inl e \<Rightarrow> raise e
      | Inr rel \<Rightarrow>
     (case get_column df human_column of
        Inl e \<Rightarrow> raise e
      | Inr final \<Rightarrow>
          let df = set_column df (Named ''final_coding'') final;
              output_file = rsplit_dot file_path @ ustr ''_reliability_results.txt''
          in (case write_report df ai_columns human_column rel of
                Inl e \<Rightarrow>
                  \<lparr>printed = None, files = [ReportFile output_file (Inl e)], outcome = Inl e\<rparr>
              | Inr rep \<Rightarrow>
                  let output_csv = rsplit_dot file_path @ ustr ''_results.csv''
                  in (case result_rows df ai_columns human_column of
                        Inl e \<Rightarrow>
                          \<lparr>printed = None, files = [ReportFile output_file (Inr rep)],
                           outcome = Inl e\<rparr>
                      | Inr rs \<Rightarrow>
                          \<lparr>printed = None,
                           files = [ReportFile output_file (Inr rep), CsvFile output_csv rs],
                           outcome =
                             Inr (df, (inter_mean_kappa rel, inter_kappas rel,
                                       intra_mean_kappa rel, intra_kappas rel,
                                       ai_internal_disagreements rel,
                                       ai_human_disagreement_info rel))\<rparr>))))))"

definition analyze_coding_agreement ::
  "env \<Rightarrow> ustring \<Rightarrow> string \<Rightarrow> string \<Rightarrow> label list option \<Rightarrow> label option \<Rightarrow> string list
     \<Rightarrow> run" where
  "analyze_coding_agreement env file_path delimiter encoding ai_columns human_column
     valid_categories =
     (case load env file_path delimiter encoding of
        Inl e \<Rightarrow> raise e
      | Inr (file_path, df) \<Rightarrow>
     (case select_columns df ai_columns human_column of
        Inl e \<Rightarrow> raise e
      | Inr (ai_columns, human_column) \<Rightarrow>
          analyze_frame file_path (assign_comment df ai_columns human_column)
            ai_columns human_column valid_categories))"

section \<open>Predicates and sample tables used in the statements\<close>

text \<open>
  A row passes the validation when every selected cell (at the positions \<open>ks\<close> of the
  selected columns) is one of the categories.
\<close>

definition row_ok :: "string list \<Rightarrow> nat list \<Rightarrow> nat \<times> cell list \<Rightarrow> bool" where
  "row_ok cats ks r = list_all (\<lambda>k. in_categories (cell_at (snd r) k) cats) ks"


text \<open>A table whose second row has a missing rater value.\<close>

definition missing_frame :: dataframe where
  "missing_frame =
     \<lparr>columns = [Col 0, Col 1],
      rows = [(0, [Str ''a'', Str ''a'']), (1, [NaN, Str ''a'']), (2, [Str ''b'', Str ''a''])]\<rparr>"

section \<open>The comparison section of save_results_optimized (statistical_comparison_analyzer_EN.py)\<close>

text \<open>
  A number of the report is a rational or NaN (\<open>None\<close>). A written line is the sequence
  of the pieces of its f-string: literal text (a character outside ASCII by its code
  point), a number formatted with so many decimals, and the marker that
  \<^verbatim>\<open>self.get_significance_symbol\<close> returned. Line breaks are left out.
\<close>

datatype piece = Lit string | Uni nat | Fmt nat "rat option" | Marker string

type_synonym line = "piece list"

datatype write_error = IndexError

text \<open>The entries of \<^verbatim>\<open>all_results\<close> that the section reads with \<^verbatim>\<open>.get\<close>.\<close>

record all_results =
  comparison_results :: "rat option list option"
  disagreement_rates :: "rat option list option"
  corrected_p_values :: "rat option list option"

text \<open>
  A write whose f-string indexes a sequence: it raises IndexError, and writes nothing,
  when an index is out of range.
\<close>

definition guard :: "bool \<Rightarrow> line \<Rightarrow> write_error + line" where
  "guard in_range l = (if in_range then Inr l else Inl IndexError)"

text \<open>
  The writes in their order: the lines written before the first exception stay in the
  file, the exception ends the section.
\<close>

fun emit :: "(write_error + line) list \<Rightarrow> line list \<times> write_error option" where
  "emit [] = ([], None)"
| "emit (Inl e # rest) = ([], Some e)"
| "emit (Inr l # rest) = (l # fst (emit rest), snd (emit rest))"

text \<open>
  Lines 70-88; \<open>comp_results\<close> is the source's \<^verbatim>\<open>comp\<close>. The method
  \<^verbatim>\<open>get_significance_symbol\<close> is not part of the sources and
  is a parameter.
\<close>

definition comparison_section ::
  "(rat option \<Rightarrow> string) \<Rightarrow> all_results \<Rightarrow> line list \<times> write_error option" where
  "comparison_section get_significance_symbol all_results =
     (case comparison_results all_results of
        None \<Rightarrow> ([], None)
      | Some comp_results \<Rightarrow>
          if comp_results = [] then ([], None)
          else
            let rates = (case disagreement_rates all_results of
                           None \<Rightarrow> replicate 6 (Some 0) @ [None, None]
                         | Some d \<Rightarrow> d)
            in emit
              ([Inr [Lit ''=== Statistical Comparison Results ===''],
                Inr [Lit ''Methods: Fisher'', Uni 8217,
                     Lit ''s z transformation + Independent t-test (Kappa) and Z-test (AI-Human Disagreement Rate)''],
                guard (2 < length comp_results)
                  [Lit ''Inter-rater Comparison: t='', Fmt 3 (comp_results ! 0), Lit '', p='',
                   Fmt 6 (comp_results ! 1), Lit '', Cohen's d='', Fmt 3 (comp_results ! 2)],
                guard (5 < length comp_results)
                  [Lit ''Intra-rater Comparison: t='', Fmt 3 (comp_results ! 3), Lit '', p='',
                   Fmt 6 (comp_results ! 4), Lit '', Cohen's d='', Fmt 3 (comp_results ! 5)],
                (if length rates \<ge> 8
                 then Inr [Lit ''AI-Human Disagreement Rate Comparison: Z='', Fmt 4 (rates ! 6),
                           Lit '', p='', Fmt 6 (rates ! 7)]
                 else Inr [Lit ''AI-Human Disagreement Rate Comparison: Cannot compute (insufficient data)''])] @
               (if \<not> 4 < length comp_results then [Inl IndexError]
                else
                  let corrected_p =
                        (case corrected_p_values all_results of
                           None \<Rightarrow> [comp_results ! 1, comp_results ! 4,
                                    if length rates \<ge> 8 then rates ! 7 else None]
                         | Some c \<Rightarrow> c)
                  in [Inr [Lit ''=== Multiple Comparison Corrected p-values (Benjamini-Hochberg) ===''],
                      guard (0 < length corrected_p)
                        [Lit ''Inter-rater Comparison (Corrected): p='', Fmt 6 (corrected_p ! 0),
                         Lit '' '', Marker (get_significance_symbol (corrected_p ! 0))],
                      guard (1 < length corrected_p)
                        [Lit ''Intra-rater Comparison (Corrected): p='', Fmt 6 (corrected_p ! 1),
                         Lit '' '', Marker (get_significance_symbol (corrected_p ! 1))],
                      guard (2 < length corrected_p)
                        [Lit ''AI-Human Disagreement Rate Comparison (Corrected): p='',
                         Fmt 6 (corrected_p ! 2),
                         Lit '' '', Marker (get_significance_symbol (corrected_p ! 2))],
                      Inr [Lit ''=== Non-parametric Test Verification ===''],
                      guard (6 < length comp_results)
                        [Lit ''Inter-rater Mann-Whitney U: p='', Fmt 6 (comp_results ! 6),
                         Lit '' '', Marker (get_significance_symbol (comp_results ! 6))],
                      guard (7 < length comp_results)
                        [Lit ''Intra-rater Mann-Whitney U: p='', Fmt 6 (comp_results ! 7),
                         Lit '' '', Marker (get_significance_symbol (comp_results ! 7))]])))"

text \<open>
  Reading a written line: a p-value is shown where a number follows text that ends in
  "p="; its marker is the one that follows it after a blank, if there is one.
\<close>

definition is_p_label :: "string \<Rightarrow> bool" where
  "is_p_label s = (drop (length s - 2) s = ''p='')"

fun shown_p_values :: "line \<Rightarrow> (rat option \<times> string option) list" where
  "shown_p_values (Lit s # Fmt d p # rest) =
     (if is_p_label s
      then [(p, case rest of Lit b # Marker m # _ \<Rightarrow> if b = '' '' then Some m else None
                 | _ \<Rightarrow> None)]
      else []) @ shown_p_values rest"
| "shown_p_values (x # rest) = shown_p_values rest"
| "shown_p_values [] = []"

text \<open>The three lines of the parametric tests, which show the raw p-values.\<close>

definition raw_test_line :: "line \<Rightarrow> bool" where
  "raw_test_line l =
     (case l of
        Lit s # _ \<Rightarrow> s \<in> {''Inter-rater Comparison: t='', ''Intra-rater Comparison: t='',
                          ''AI-Human Disagreement Rate Comparison: Z=''}
      | _ \<Rightarrow> False)"

text \<open>
  Modelled from the spec: \<^verbatim>\<open>get_significance_symbol\<close> is not part of the sources. The
  spec describes three tiers of threshold plus "not significant"; the conventional
  thresholds are taken here. It only supplies a concrete symbol function where one is
  needed to run the section.
\<close>

definition significance_stars :: "rat option \<Rightarrow> string" where
  "significance_stars p =
     (case p of
        None \<Rightarrow> ''ns''
      | Some v \<Rightarrow> if v < 1 / 1000 then ''***'' else if v < 1 / 100 then ''**''
                  else if v < 5 / 100 then ''*'' else ''ns'')"

text \<open>Results of a comparison: t, p, d for both families, the two Mann-Whitney p-values.\<close>

definition sample_results :: all_results where
  "sample_results =
     \<lparr>comparison_results = Some [Some 2, Some (1 / 25), Some 1, Some 3, Some (1 / 200), Some 2,
                                  Some (3 / 100), Some (1 / 125)],
      disagreement_rates = Some [Some (1 / 2), Some (1 / 4), Some 10, Some 5, Some 20, Some 20,
                                 Some 2, Some (1 / 20)],
      corrected_p_values = Some [Some (3 / 50), Some (3 / 200), Some (1 / 20)]\<rparr>"

text \<open>
  A line is in order when each p-value it shows carries its own marker, or carries none
  and the line is one of the three raw test lines.
\<close>

definition marked_or_raw :: "(rat option \<Rightarrow> string) \<Rightarrow> line \<Rightarrow> bool" where
  "marked_or_raw symb l =
     (\<forall>pm \<in> set (shown_p_values l).
        (snd pm = Some (symb (fst pm)) \<and> \<not> raw_test_line l) \<or>
        (snd pm = None \<and> raw_test_line l))"

section \<open>A fragment of the Unicode database\<close>

text \<open>
  Modelled from the spec: the spec has the path normalised and its control characters
  stripped; the tables behind \<^verbatim>\<open>unicodedata\<close> belong to the Python runtime and are
  not part of the sources. This is the part of the Unicode database that the examples
  below need. \<open>compose_e_acute\<close> is NFKC on strings
  in which U+0301 (combining acute accent, 769) follows no ASCII letter other than "e":
  the letter e (101) directly followed by U+0301 composes to U+00E9 (233), and nothing
  else changes; in particular it is the identity on ASCII strings. The characters of
  category C below U+0100 are the controls U+0000-U+001F and U+007F-U+009F and the soft
  hyphen U+00AD; U+0301 is a mark and U+00E9 a letter.
\<close>

fun compose_e_acute :: "ustring \<Rightarrow> ustring" where
  "compose_e_acute (c # d # rest) =
     (if c = 101 \<and> d = 769 then 233 # compose_e_acute rest
      else c # compose_e_acute (d # rest))"
| "compose_e_acute [c] = [c]"
| "compose_e_acute [] = []"

definition sample_db :: unicode_db where
  "sample_db =
     \<lparr>normalize_NFKC = compose_e_acute,
      category_C = (\<lambda>c. c < 32 \<or> (127 \<le> c \<and> c < 160) \<or> c = 173)\<rparr>"

text \<open>
  The components that \<open>normpath\<close> keeps: none is empty or ".", none holds a separator,
  and ".." occurs only at the front of a relative path (\<open>i\<close> is the number of initial
  slashes).
\<close>

definition normal_comps :: "nat \<Rightarrow> ustring list \<Rightarrow> bool" where
  "normal_comps i cs =
     ((\<forall>c \<in> set cs. c \<noteq> [] \<and> c \<noteq> dot \<and> sep \<notin> set c) \<and>
      (\<forall>j < length cs. cs ! j = dotdot \<longrightarrow> i = 0 \<and> (\<forall>k < j. cs ! k = dotdot)))"

text \<open>The number of initial slashes that \<open>normpath\<close> computes first.\<close>

definition initial_slashes_of :: "ustring \<Rightarrow> nat" where
  "initial_slashes_of path =
     (if startswith path [sep]
      then (if startswith path [sep, sep] \<and> \<not> startswith path [sep, sep, sep] then 2 else 1)
      else 0)"

section \<open>Properties\<close>

subsection \<open>The disagreement set and its rate\<close>

lemma positions_Inr:
  "positions cols cs = Inr ks \<Longrightarrow> map Some ks = map (\<lambda>c. index_of c cols) cs"
  by (induction cs arbitrary: ks) (auto split: option.splits sum.splits)

lemma list_ex_selected:
  assumes "positions cols cs = Inr ks"
  shows "list_ex P (map (cell_at r) ks) =
         (\<exists>c \<in> set cs. \<exists>v. row_get cols r c = Inr v \<and> P v)"
  using assms
  by (induction cs arbitrary: ks) (auto simp: row_get_def split: option.splits sum.splits)

lemma disagreement_loop:
  "foldl (disagreement_step A H C) (k, acc) [0..<n] =
     (k + length (filter (\<lambda>i. list_ex (\<lambda>x. py_ne x (H ! i)) (A ! i)) [0..<n]),
      acc @ map (\<lambda>i. (i + 1, C ! i, A ! i, H ! i))
              (filter (\<lambda>i. list_ex (\<lambda>x. py_ne x (H ! i)) (A ! i)) [0..<n]))"
  by (induction n) (auto simp: disagreement_step_def Let_def)

lemma calculate_unfold:
  assumes "calculate_ai_human_disagreement_rate df ai_columns human_column = Inr (rate, cnt, tot, dis)"
  shows "\<exists>A H. get_columns df ai_columns = Inr A \<and> get_column df human_column = Inr H \<and>
           tot = length (rows df) \<and>
           dis = map (\<lambda>i. (i + 1, get_comments df ! i, A ! i, H ! i))
                   (filter (\<lambda>i. list_ex (\<lambda>x. py_ne x (H ! i)) (A ! i)) [0..<length A]) \<and>
           cnt = length dis \<and>
           rate = (if tot > 0 then of_nat cnt / of_nat tot else 0)"
  using assms
  by (auto simp: calculate_ai_human_disagreement_rate_def Let_def disagreement_loop split: sum.splits)

lemma get_columns_nth:
  assumes "get_columns df cs = Inr A"
  shows "length A = length (rows df)"
    and "i < length (rows df) \<Longrightarrow>
         list_ex P (A ! i) = (\<exists>c \<in> set cs. \<exists>v. row_get (columns df) (snd (rows df ! i)) c = Inr v \<and> P v)"
  using assms
  by (fastforce simp: get_columns_def list_ex_selected split: sum.splits)+

lemma get_column_nth:
  assumes "get_column df c = Inr H"
  shows "length H = length (rows df)"
    and "i < length (rows df) \<Longrightarrow> row_get (columns df) (snd (rows df ! i)) c = Inr (H ! i)"
  using assms
  by (auto simp: get_column_def row_get_def split: option.splits)

lemma disagreement_set_gen:
  assumes "calculate_ai_human_disagreement_rate df ai_columns human_column = Inr (rate, cnt, tot, dis)"
  shows "(idx \<in> fst ` set dis) =
         (\<exists>i < length (rows df). idx = i + 1 \<and>
            (\<exists>c \<in> set ai_columns. \<exists>v h.
               row_get (columns df) (snd (rows df ! i)) c = Inr v \<and>
               row_get (columns df) (snd (rows df ! i)) human_column = Inr h \<and> py_ne v h))"
proof -
  from calculate_unfold [OF assms] obtain A H where
    A: "get_columns df ai_columns = Inr A" and H: "get_column df human_column = Inr H"
    and dis: "dis = map (\<lambda>i. (i + 1, get_comments df ! i, A ! i, H ! i))
                   (filter (\<lambda>i. list_ex (\<lambda>x. py_ne x (H ! i)) (A ! i)) [0..<length A])"
    by blast
  have "(idx \<in> fst ` set dis) =
        (\<exists>i < length (rows df). idx = i + 1 \<and> list_ex (\<lambda>x. py_ne x (H ! i)) (A ! i))"
    unfolding dis using get_columns_nth(1) [OF A] by (auto simp: image_iff)
  also have "\<dots> = (\<exists>i < length (rows df). idx = i + 1 \<and>
            (\<exists>c \<in> set ai_columns. \<exists>v.
               row_get (columns df) (snd (rows df ! i)) c = Inr v \<and> py_ne v (H ! i)))"
    by (simp add: get_columns_nth(2) [OF A] cong: conj_cong)
  also have "\<dots> = (\<exists>i < length (rows df). idx = i + 1 \<and>
            (\<exists>c \<in> set ai_columns. \<exists>v h.
               row_get (columns df) (snd (rows df ! i)) c = Inr v \<and>
               row_get (columns df) (snd (rows df ! i)) human_column = Inr h \<and> py_ne v h))"
    by (simp add: get_column_nth(2) [OF H] cong: conj_cong)
  finally show ?thesis .
qed

lemma scenario_1_result:
  "calculate_ai_human_disagreement_rate scenario_1 [Col 0, Col 1, Col 2] (Col 3) =
     Inr (1 / 2, 2, 4,
          [(2, Str ''No comment available'', [Str ''a'', Str ''b'', Str ''a''], Str ''a''),
           (4, Str ''No comment available'', [Str ''a'', Str ''a'', Str ''b''], Str ''a'')])"
  by (simp add: calculate_ai_human_disagreement_rate_def scenario_1_def get_columns_def
      get_column_def get_comments_def cell_at_def disagreement_step_def Let_def upt_rec)


text \<open>
  C3. A row is in the disagreement set exactly when at least one rater's code in that row
  differs from the reference code of that row: the returned cases carry the 1-based
  positions of exactly those rows. On the four-row table of scenario 1 the cases are
  rows 2 and 4 (count 2 of 4, rate 1/2).
\<close>

theorem disagreement_set_iff:
  "(calculate_ai_human_disagreement_rate df ai_columns human_column = Inr (rate, cnt, tot, dis) \<longrightarrow>
      (\<forall>idx. (idx \<in> fst ` set dis) =
         (\<exists>i < length (rows df). idx = i + 1 \<and>
            (\<exists>c \<in> set ai_columns. \<exists>v h.
               row_get (columns df) (snd (rows df ! i)) c = Inr v \<and>
               row_get (columns df) (snd (rows df ! i)) human_column = Inr h \<and> py_ne v h)))) \<and>
   calculate_ai_human_disagreement_rate scenario_1 [Col 0, Col 1, Col 2] (Col 3) =
     Inr (1 / 2, 2, 4,
          [(2, Str ''No comment available'', [Str ''a'', Str ''b'', Str ''a''], Str ''a''),
           (4, Str ''No comment available'', [Str ''a'', Str ''a'', Str ''b''], Str ''a'')])"
proof (intro conjI impI allI)
  fix idx
  assume "calculate_ai_human_disagreement_rate df ai_columns human_column = Inr (rate, cnt, tot, dis)"
  then show "(idx \<in> fst ` set dis) =
         (\<exists>i < length (rows df). idx = i + 1 \<and>
            (\<exists>c \<in> set ai_columns. \<exists>v h.
               row_get (columns df) (snd (rows df ! i)) c = Inr v \<and>
               row_get (columns df) (snd (rows df ! i)) human_column = Inr h \<and> py_ne v h))"
    by (rule disagreement_set_gen)
qed (rule scenario_1_result)

theorem disagreement_set_iff_witness:
  "calculate_ai_human_disagreement_rate scenario_1 [Col 0, Col 1, Col 2] (Col 3) =
     Inr (1 / 2, 2, 4,
          [(2, Str ''No comment available'', [Str ''a'', Str ''b'', Str ''a''], Str ''a''),
           (4, Str ''No comment available'', [Str ''a'', Str ''a'', Str ''b''], Str ''a'')]) \<and>
   (\<exists>i < length (rows scenario_1). (4::nat) = i + 1 \<and>
      (\<exists>c \<in> set [Col 0, Col 1, Col 2]. \<exists>v h.
         row_get (columns scenario_1) (snd (rows scenario_1 ! i)) c = Inr v \<and>
         row_get (columns scenario_1) (snd (rows scenario_1 ! i)) (Col 3) = Inr h \<and> py_ne v h)) \<and>
   \<not> (\<exists>i < length (rows scenario_1). (3::nat) = i + 1 \<and>
      (\<exists>c \<in> set [Col 0, Col 1, Col 2]. \<exists>v h.
         row_get (columns scenario_1) (snd (rows scenario_1 ! i)) c = Inr v \<and>
         row_get (columns scenario_1) (snd (rows scenario_1 ! i)) (Col 3) = Inr h \<and> py_ne v h))"
proof -
  let ?r = "calculate_ai_human_disagreement_rate scenario_1 [Col 0, Col 1, Col 2] (Col 3)"
  note r = scenario_1_result
  note t = disagreement_set_iff [of scenario_1 "[Col 0, Col 1, Col 2]" "Col 3" "1 / 2" 2 4
          "[(2, Str ''No comment available'', [Str ''a'', Str ''b'', Str ''a''], Str ''a''),
            (4, Str ''No comment available'', [Str ''a'', Str ''a'', Str ''b''], Str ''a'')]",
          THEN conjunct1, rule_format, OF r]
  have "(4::nat) \<in> fst ` set [(2::nat, Str ''No comment available'', [Str ''a'', Str ''b'', Str ''a''], Str ''a''),
            (4, Str ''No comment available'', [Str ''a'', Str ''a'', Str ''b''], Str ''a'')]" by simp
  moreover have "(3::nat) \<notin> fst ` set [(2::nat, Str ''No comment available'', [Str ''a'', Str ''b'', Str ''a''], Str ''a''),
            (4, Str ''No comment available'', [Str ''a'', Str ''a'', Str ''b''], Str ''a'')]" by simp
  ultimately show ?thesis using r t [of 4] t [of 3] by blast
qed




subsection \<open>Validation\<close>

lemma positions_total:
  "set sel \<subseteq> set cols \<Longrightarrow> \<exists>ks. positions cols sel = Inr ks"
proof (induction sel)
  case Nil
  then show ?case by simp
next
  case (Cons c sel)
  have "c \<in> set cols \<Longrightarrow> \<exists>k. index_of c cols = Some k"
    by (induction cols) auto
  with Cons show ?case by (auto split: option.splits sum.splits)
qed

lemma index_of_Some_less: "index_of c cols = Some k \<Longrightarrow> k < length cols \<and> cols ! k = c"
  by (induction cols arbitrary: k) (auto split: if_splits)

lemma all_in_resolved:
  "positions cols sel = Inr ks \<Longrightarrow>
   all_in cols cs cats sel = Inr (list_all (\<lambda>k. in_categories (cell_at cs k) cats) ks)"
  by (induction sel arbitrary: ks) (auto simp: row_get_def split: option.splits sum.splits)

lemma row_values_resolved:
  "positions cols sel = Inr ks \<Longrightarrow> row_values cols cs sel = Inr (map (cell_at cs) ks)"
  by (induction sel arbitrary: ks) (auto simp: row_get_def split: option.splits sum.splits)

lemma validate_rows_first:
  assumes "positions cols sel = Inr ks"
    and "\<forall>r \<in> set pre. row_ok cats ks r" and "\<not> row_ok cats ks (i, cs)"
  shows "validate_rows cols cats sel (pre @ (i, cs) # post) =
           Inr (Rejected (i + 1) (map (cell_at cs) ks))"
  using assms(2,3)
  by (induction pre) (auto simp: all_in_resolved [OF assms(1)] row_values_resolved [OF assms(1)] row_ok_def)

lemma validate_rows_passed:
  assumes "positions cols sel = Inr ks"
  shows "(validate_rows cols cats sel rs = Inr Passed) = (\<forall>r \<in> set rs. row_ok cats ks r)"
  by (induction rs)
     (auto simp: all_in_resolved [OF assms] row_values_resolved [OF assms] row_ok_def
           split: if_splits)

lemma in_categories_iff: "in_categories v cats = (\<exists>s \<in> set cats. v = Str s)"
  by (cases v) (auto simp: in_categories_def)

lemma row_ok_iff:
  assumes "positions cols sel = Inr ks"
  shows "row_ok cats ks r =
         (\<forall>c \<in> set sel. \<exists>s \<in> set cats. row_get cols (snd r) c = Inr (Str s))"
  using assms
  by (induction sel arbitrary: ks)
     (auto simp: row_ok_def row_get_def in_categories_iff split: option.splits sum.splits)





subsection \<open>After a passed validation\<close>

lemma passed_rows_ok:
  assumes "validate_data df ai_columns human_column cats = Inr Passed"
    and "positions (columns df) (ai_columns @ [human_column]) = Inr ks"
  shows "\<forall>r \<in> set (rows df). row_ok cats ks r"
  using assms by (simp add: validate_data_def validate_rows_passed)

lemma row_ok_not_missing:
  "row_ok cats ks r \<Longrightarrow> list_all (\<lambda>k. cell_at (snd r) k \<noteq> NaN) ks"
  by (auto simp: row_ok_def list_all_iff in_categories_iff)

lemma dropna_passed:
  assumes "validate_data df ai_columns human_column cats = Inr Passed"
    and "set (ai_columns @ [human_column]) \<subseteq> set (columns df)"
  shows "dropna df (ai_columns @ [human_column]) = Inr df"
proof -
  from positions_total [OF assms(2)] obtain ks where
    ks: "positions (columns df) (ai_columns @ [human_column]) = Inr ks" by blast
  have "filter (\<lambda>r. list_all (\<lambda>k. cell_at (snd r) k \<noteq> NaN) ks) (rows df) = rows df"
    using passed_rows_ok [OF assms(1) ks] row_ok_not_missing by (auto simp: filter_id_conv)
  then show ?thesis by (simp add: dropna_def ks)
qed

lemma find_range_index:
  assumes "map fst rs = [0..<length rs]" and "l < length rs"
  shows "find (\<lambda>r. fst r = l) rs = Some (rs ! l)"
proof -
  have n: "fst (rs ! j) = j" if "j < length rs" for j
  proof -
    have "map fst rs ! j = [0..<length rs] ! j" using assms(1) by simp
    then show ?thesis using that by simp
  qed
  show ?thesis
    unfolding find_Some_iff
    by (rule exI [of _ l]) (use assms(2) n in auto)
qed

lemma cell_at_pad: "cell_at (pad n cs) k = cell_at cs k"
  by (auto simp: cell_at_def pad_def nth_append)

lemma cell_at_pad_snoc: "k < n \<Longrightarrow> cell_at (pad n cs @ [v]) k = cell_at cs k"
  by (auto simp: cell_at_def pad_def nth_append)

lemma index_of_append:
  "index_of c xs = Some k \<Longrightarrow> index_of c (xs @ ys) = Some k"
  by (induction xs arbitrary: k) (auto split: if_splits)

lemma set_column_labels:
  assumes "length vs = length (rows df)"
  shows "map fst (rows (set_column df c vs)) = map fst (rows df)"
    and "length (rows (set_column df c vs)) = length (rows df)"
  using assms
  by (auto simp: set_column_def split: option.splits intro!: nth_equalityI)

lemma loc_final_coding:
  assumes k: "index_of human_column (columns df) = Some k"
    and final: "final = map (\<lambda>r. cell_at (snd r) k) (rows df)"
    and idx: "map fst (rows df) = [0..<length (rows df)]"
    and l: "l < length (rows df)"
  shows "loc (set_column df fc final) l human_column = Inr (cell_at (snd (rows df ! l)) k)"
proof -
  let ?df = "set_column df fc final"
  have len: "length final = length (rows df)" by (simp add: final)
  have idx': "map fst (rows ?df) = [0..<length (rows ?df)]"
    using set_column_labels [OF len] idx by simp
  have l': "l < length (rows ?df)" using set_column_labels(2) [OF len] l by simp
  have f: "find (\<lambda>r. fst r = l) (rows ?df) = Some (rows ?df ! l)"
    by (rule find_range_index [OF idx' l'])
  have kn: "k < length (columns df)" using index_of_Some_less [OF k] by simp
  have "row_get (columns ?df) (snd (rows ?df ! l)) human_column = Inr (cell_at (snd (rows df ! l)) k)"
  proof (cases "index_of fc (columns df)")
    case None
    then show ?thesis
      using l len kn by (simp add: set_column_def row_get_def index_of_append [OF k] cell_at_pad_snoc)
  next
    case (Some k')
    show ?thesis
    proof (cases "k' = k")
      case True
      then show ?thesis
        using l len kn Some
        by (simp add: set_column_def row_get_def k final cell_at_def pad_def)
    next
      case False
      have "cell_at (xs[k' := v]) k = cell_at xs k" for xs v
        using False by (simp add: cell_at_def)
      then have "cell_at ((pad (length (columns df)) cs)[k' := v]) k = cell_at cs k" for cs v
        by (simp add: cell_at_pad)
      then show ?thesis
        using l len Some by (simp add: set_column_def row_get_def k)
    qed
  qed
  then show ?thesis by (simp add: loc_def f)
qed


lemma index_of_total: "c \<in> set cols \<Longrightarrow> \<exists>k. index_of c cols = Some k"
  by (induction cols) auto

lemma disagreement_rate_total:
  assumes "get_columns df ai_columns = Inr A" and "get_column df human_column = Inr H"
  shows "\<exists>info. calculate_ai_human_disagreement_rate df ai_columns human_column = Inr info"
  using assms by (simp add: calculate_ai_human_disagreement_rate_def Let_def)

lemma reliability_total:
  assumes "set (ai_columns @ [human_column]) \<subseteq> set (columns df)"
  shows "\<exists>A ks k rel. positions (columns df) ai_columns = Inr ks \<and>
           A = map (\<lambda>r. map (cell_at (snd r)) ks) (rows df) \<and>
           index_of human_column (columns df) = Some k \<and>
           get_column df human_column = Inr (map (\<lambda>r. cell_at (snd r) k) (rows df)) \<and>
           calculate_inter_rater_reliability df ai_columns human_column = Inr rel \<and>
           ai_internal_disagreements rel = internal_disagreements A (get_comments df)"
proof -
  from assms have "set ai_columns \<subseteq> set (columns df)" and h: "human_column \<in> set (columns df)"
    by auto
  from positions_total [OF this(1)] obtain ks where
    ks: "positions (columns df) ai_columns = Inr ks" by blast
  from index_of_total [OF h] obtain k where k: "index_of human_column (columns df) = Some k"
    by blast
  have A: "get_columns df ai_columns = Inr (map (\<lambda>r. map (cell_at (snd r)) ks) (rows df))"
    by (simp add: get_columns_def ks)
  have H: "get_column df human_column = Inr (map (\<lambda>r. cell_at (snd r) k) (rows df))"
    by (simp add: get_column_def k)
  from disagreement_rate_total [OF A H] obtain info where
    info: "calculate_ai_human_disagreement_rate df ai_columns human_column = Inr info" by blast
  show ?thesis
    by (simp add: calculate_inter_rater_reliability_def A H info Let_def ks k)
qed

lemma internal_case_lines_ok:
  assumes "\<And>l. l < n \<Longrightarrow> loc df l human_column = Inr (g l)"
    and "\<forall>c \<in> set cs. 1 \<le> fst c \<and> fst c \<le> n"
  shows "internal_case_lines df human_column cs =
           Inr (map (\<lambda>c. (fst c, snd (snd c), g (fst c - 1), fst (snd c), g (fst c - 1))) cs)"
  using assms(2)
proof (induction cs)
  case Nil
  then show ?case by simp
next
  case (Cons c cs)
  obtain idx comment codes where c: "c = (idx, comment, codes)" by (cases c) auto
  from Cons.prems have "idx - 1 < n" by (auto simp: c)
  from assms(1) [OF this] Cons show ?case by (simp add: c)
qed

lemma internal_disagreements_range:
  "\<forall>c \<in> set (internal_disagreements A comments).
     1 \<le> fst c \<and> fst c \<le> length A \<and> snd (snd c) = A ! (fst c - 1)"
  by (auto simp: internal_disagreements_def)

lemma analyze_frame_passed:
  assumes v: "validate_data df ai_columns human_column cats = Inr Passed"
    and sel: "set (ai_columns @ [human_column]) \<subseteq> set (columns df)"
    and ne: "rows df \<noteq> []"
    and idx: "map fst (rows df) = [0..<length (rows df)]"
  shows "\<exists>ks k rep.
           positions (columns df) ai_columns = Inr ks \<and>
           index_of human_column (columns df) = Some k \<and>
           rep_internal_cases rep =
             map (\<lambda>c. (fst c, snd (snd c), cell_at (snd (rows df ! (fst c - 1))) k, fst (snd c),
                       cell_at (snd (rows df ! (fst c - 1))) k))
               (internal_disagreements (map (\<lambda>r. map (cell_at (snd r)) ks) (rows df))
                  (get_comments df)) \<and>
           analyze_frame p df ai_columns human_column cats =
             \<lparr>printed = None,
              files = [ReportFile (rsplit_dot p @ ustr ''_reliability_results.txt'') (Inr rep)],
              outcome = Inl NameError\<rparr>"
proof -
  let ?fc = "Named ''final_coding''"
  from reliability_total [OF sel] obtain ks k rel where
    ks: "positions (columns df) ai_columns = Inr ks"
    and k: "index_of human_column (columns df) = Some k"
    and H: "get_column df human_column = Inr (map (\<lambda>r. cell_at (snd r) k) (rows df))"
    and rel: "calculate_inter_rater_reliability df ai_columns human_column = Inr rel"
    and int: "ai_internal_disagreements rel =
                internal_disagreements (map (\<lambda>r. map (cell_at (snd r)) ks) (rows df)) (get_comments df)"
    by blast
  let ?final = "map (\<lambda>r. cell_at (snd r) k) (rows df)"
  let ?df = "set_column df ?fc ?final"
  let ?g = "\<lambda>l. cell_at (snd (rows df ! l)) k"
  have d: "dropna df (ai_columns @ [human_column]) = Inr df"
    by (rule dropna_passed [OF v sel])
  have e: "\<not> df_empty df"
    using ne sel by (auto simp: df_empty_def)
  have lk: "loc ?df l human_column = Inr (?g l)" if "l < length (rows df)" for l
    by (rule loc_final_coding [OF k refl idx that])
  have rng: "\<forall>c \<in> set (ai_internal_disagreements rel). 1 \<le> fst c \<and> fst c \<le> length (rows df)"
    using internal_disagreements_range [of "map (\<lambda>r. map (cell_at (snd r)) ks) (rows df)" "get_comments df"]
    by (simp add: int)
  have lines: "internal_case_lines ?df human_column (ai_internal_disagreements rel) =
      Inr (map (\<lambda>c. (fst c, snd (snd c), ?g (fst c - 1), fst (snd c), ?g (fst c - 1)))
             (ai_internal_disagreements rel))"
    by (rule internal_case_lines_ok [OF lk rng])
  obtain rep where rep: "write_report ?df ai_columns human_column rel = Inr rep"
    and rc: "rep_internal_cases rep =
       map (\<lambda>c. (fst c, snd (snd c), ?g (fst c - 1), fst (snd c), ?g (fst c - 1)))
             (ai_internal_disagreements rel)"
    by (simp add: write_report_def lines Let_def)
  have ne': "rows ?df \<noteq> []"
    using set_column_labels(2) [of ?final df ?fc] ne by auto
  have "analyze_frame p df ai_columns human_column cats =
             \<lparr>printed = None,
              files = [ReportFile (rsplit_dot p @ ustr ''_reliability_results.txt'') (Inr rep)],
              outcome = Inl NameError\<rparr>"
    by (simp add: analyze_frame_def v d e rel H rep Let_def result_rows_def ne')
  with ks k rc int show ?thesis by auto
qed


lemma frame_of_index:
  "map fst (rows (frame_of t)) = [0..<length (rows (frame_of t))]"
  by (simp add: frame_of_def Let_def)

lemma assign_comment_labels:
  "map fst (rows (assign_comment df ai_columns human_column)) = map fst (rows df)"
  using set_column_labels(1) [of "replicate (length (rows df)) (Str ''No comment available'')" df]
  by (simp add: assign_comment_def rename_column_def Let_def)

lemma loaded_index:
  assumes "load env file_path delimiter encoding = Inr (p, df)"
  shows "map fst (rows (assign_comment df ai_columns human_column)) =
           [0..<length (rows (assign_comment df ai_columns human_column))]"
proof -
  from assms obtain t where "df = frame_of t"
    by (auto simp: load_def Let_def split: if_splits read_result.splits sum.splits)
  then have "map fst (rows df) = [0..<length (rows df)]"
    by (simp add: frame_of_index)
  moreover have "length (rows (assign_comment df ai_columns human_column)) = length (rows df)"
    using assign_comment_labels [of df ai_columns human_column, THEN arg_cong, of length]
    by simp
  ultimately show ?thesis by (simp add: assign_comment_labels)
qed

text \<open>
  C9. In a table that passed the validation no rater or reference cell is missing, so
  the removal of missing values leaves the frame as it is and the index labels stay the
  0-based positions they were when the table was loaded. The written report lists, for
  every internal disagreement case with row number idx, the rater codes of the row at
  position idx - 1 and, read back by the label idx - 1, the reference code of that row.
\<close>

theorem validated_lookup_by_position:
  assumes v: "validate_data df ai_columns human_column cats = Inr Passed"
    and sel: "set (ai_columns @ [human_column]) \<subseteq> set (columns df)"
    and ne: "rows df \<noteq> []"
    and idx: "map fst (rows df) = [0..<length (rows df)]"
  shows "(\<forall>r \<in> set (rows df). \<forall>c \<in> set (ai_columns @ [human_column]).
            row_get (columns df) (snd r) c \<noteq> Inr NaN) \<and>
         dropna df (ai_columns @ [human_column]) = Inr df \<and>
         (\<exists>name rep.
            files (analyze_frame p df ai_columns human_column cats) = [ReportFile name (Inr rep)] \<and>
            (\<forall>c \<in> set (rep_internal_cases rep).
               1 \<le> fst c \<and> fst c \<le> length (rows df) \<and>
               fst (rows df ! (fst c - 1)) = fst c - 1 \<and>
               row_get (columns df) (snd (rows df ! (fst c - 1))) human_column =
                 Inr (fst (snd (snd c))) \<and>
               row_values (columns df) (snd (rows df ! (fst c - 1))) ai_columns =
                 Inr (fst (snd c))))"
proof (intro conjI)
  from positions_total [OF sel] obtain ks' where
    ks': "positions (columns df) (ai_columns @ [human_column]) = Inr ks'" by blast
  show "\<forall>r \<in> set (rows df). \<forall>c \<in> set (ai_columns @ [human_column]).
            row_get (columns df) (snd r) c \<noteq> Inr NaN"
    using passed_rows_ok [OF v ks'] unfolding row_ok_iff [OF ks'] by fastforce
  show "dropna df (ai_columns @ [human_column]) = Inr df"
    by (rule dropna_passed [OF v sel])
  from analyze_frame_passed [OF v sel ne idx, of p] obtain ks k rep where
    ks: "positions (columns df) ai_columns = Inr ks"
    and k: "index_of human_column (columns df) = Some k"
    and rc: "rep_internal_cases rep =
             map (\<lambda>c. (fst c, snd (snd c), cell_at (snd (rows df ! (fst c - 1))) k, fst (snd c),
                       cell_at (snd (rows df ! (fst c - 1))) k))
               (internal_disagreements (map (\<lambda>r. map (cell_at (snd r)) ks) (rows df))
                  (get_comments df))"
    and a: "analyze_frame p df ai_columns human_column cats =
             \<lparr>printed = None,
              files = [ReportFile (rsplit_dot p @ ustr ''_reliability_results.txt'') (Inr rep)],
              outcome = Inl NameError\<rparr>"
    by blast
  have lab: "fst (rows df ! j) = j" if "j < length (rows df)" for j
  proof -
    have "map fst (rows df) ! j = [0..<length (rows df)] ! j" using idx by simp
    then show ?thesis using that by simp
  qed
  have "\<forall>c \<in> set (rep_internal_cases rep).
               1 \<le> fst c \<and> fst c \<le> length (rows df) \<and>
               fst (rows df ! (fst c - 1)) = fst c - 1 \<and>
               row_get (columns df) (snd (rows df ! (fst c - 1))) human_column =
                 Inr (fst (snd (snd c))) \<and>
               row_values (columns df) (snd (rows df ! (fst c - 1))) ai_columns =
                 Inr (fst (snd c))"
  proof
    fix c assume "c \<in> set (rep_internal_cases rep)"
    then obtain d where d: "d \<in> set (internal_disagreements (map (\<lambda>r. map (cell_at (snd r)) ks) (rows df))
                  (get_comments df))"
      and c: "c = (fst d, snd (snd d), cell_at (snd (rows df ! (fst d - 1))) k, fst (snd d),
                       cell_at (snd (rows df ! (fst d - 1))) k)"
      unfolding rc by auto
    from internal_disagreements_range [rule_format, OF d]
    have r: "1 \<le> fst d" "fst d \<le> length (rows df)"
      and cd: "snd (snd d) = map (\<lambda>r. map (cell_at (snd r)) ks) (rows df) ! (fst d - 1)"
      by auto
    from r have lt: "fst d - 1 < length (rows df)" by simp
    show "1 \<le> fst c \<and> fst c \<le> length (rows df) \<and>
               fst (rows df ! (fst c - 1)) = fst c - 1 \<and>
               row_get (columns df) (snd (rows df ! (fst c - 1))) human_column =
                 Inr (fst (snd (snd c))) \<and>
               row_values (columns df) (snd (rows df ! (fst c - 1))) ai_columns =
                 Inr (fst (snd c))"
      using r lt lab [OF lt] cd
      by (simp add: c row_get_def k row_values_resolved [OF ks])
  qed
  with a show "\<exists>name rep.
            files (analyze_frame p df ai_columns human_column cats) = [ReportFile name (Inr rep)] \<and>
            (\<forall>c \<in> set (rep_internal_cases rep).
               1 \<le> fst c \<and> fst c \<le> length (rows df) \<and>
               fst (rows df ! (fst c - 1)) = fst c - 1 \<and>
               row_get (columns df) (snd (rows df ! (fst c - 1))) human_column =
                 Inr (fst (snd (snd c))) \<and>
               row_values (columns df) (snd (rows df ! (fst c - 1))) ai_columns =
                 Inr (fst (snd c)))"
    by auto
qed


lemma scenario_1_passed:
  "validate_data scenario_1 [Col 0, Col 1, Col 2] (Col 3) [''a'', ''b''] = Inr Passed"
  by (simp add: validate_data_def scenario_1_def row_get_def cell_at_def in_categories_def)

theorem validated_lookup_by_position_witness:
  "validate_data scenario_1 [Col 0, Col 1, Col 2] (Col 3) [''a'', ''b''] = Inr Passed \<and>
   dropna scenario_1 ([Col 0, Col 1, Col 2] @ [Col 3]) = Inr scenario_1 \<and>
   (\<exists>name rep.
      files (analyze_frame [] scenario_1 [Col 0, Col 1, Col 2] (Col 3) [''a'', ''b'']) =
        [ReportFile name (Inr rep)] \<and>
      (\<forall>c \<in> set (rep_internal_cases rep).
         1 \<le> fst c \<and> fst c \<le> length (rows scenario_1) \<and>
         fst (rows scenario_1 ! (fst c - 1)) = fst c - 1 \<and>
         row_get (columns scenario_1) (snd (rows scenario_1 ! (fst c - 1))) (Col 3) =
           Inr (fst (snd (snd c))) \<and>
         row_values (columns scenario_1) (snd (rows scenario_1 ! (fst c - 1))) [Col 0, Col 1, Col 2] =
           Inr (fst (snd c))))"
proof -
  have sel: "set ([Col 0, Col 1, Col 2] @ [Col 3]) \<subseteq> set (columns scenario_1)"
    by (simp add: scenario_1_def)
  have ne: "rows scenario_1 \<noteq> []"
    by (simp add: scenario_1_def)
  have idx: "map fst (rows scenario_1) = [0..<length (rows scenario_1)]"
    by (simp add: scenario_1_def upt_rec)
  from validated_lookup_by_position [OF scenario_1_passed sel ne idx, of "[]"] scenario_1_passed
  show ?thesis by blast
qed

subsection \<open>Missing values\<close>

lemma loc_error: "loc df l c = Inl e \<Longrightarrow> e = KeyError"
  by (auto simp: loc_def row_get_def split: option.splits)

lemma internal_case_lines_error:
  "internal_case_lines df h cs = Inl e \<Longrightarrow> e = KeyError"
proof (induction cs)
  case Nil
  then show ?case by simp
next
  case (Cons c cs)
  obtain idx comment codes where c: "c = (idx, comment, codes)" by (cases c) auto
  from Cons show ?case
    by (auto simp: c split: sum.splits dest: loc_error)
qed

lemma write_report_error: "write_report df ai h rel = Inl e \<Longrightarrow> e = KeyError"
  by (auto simp: write_report_def Let_def split: sum.splits dest: internal_case_lines_error)

lemma rejected_run:
  assumes sel: "set (ai_columns @ [human_column]) \<subseteq> set (columns df)"
    and bad: "\<exists>r \<in> set (rows df). \<exists>c \<in> set (ai_columns @ [human_column]).
                \<forall>s \<in> set cats. row_get (columns df) (snd r) c \<noteq> Inr (Str s)"
  shows "\<exists>n vs. analyze_frame p df ai_columns human_column cats =
           \<lparr>printed = Some (n, vs), files = [], outcome = Inl (ValueError InvalidFormat)\<rparr>"
proof -
  from positions_total [OF sel] obtain ks where
    ks: "positions (columns df) (ai_columns @ [human_column]) = Inr ks" by blast
  from bad have "\<exists>r \<in> set (rows df). \<not> row_ok cats ks r"
    unfolding row_ok_iff [OF ks] by blast
  from split_list_first_prop [OF this] obtain pre x post where
    r: "rows df = pre @ x # post" and x: "\<not> row_ok cats ks x"
    and pre: "\<forall>y \<in> set pre. \<not> \<not> row_ok cats ks y"
    by blast
  obtain i cs where xi: "x = (i, cs)" by (cases x) auto
  have "validate_rows (columns df) cats (ai_columns @ [human_column]) (pre @ (i, cs) # post) =
          Inr (Rejected (i + 1) (map (cell_at cs) ks))"
    using validate_rows_first [OF ks _ x [unfolded xi]] pre by simp
  then show ?thesis
    by (simp add: analyze_frame_def validate_data_def r xi)
qed

text \<open>
  What the code does with a missing value. It is not a category, so a table with a
  missing value in a rater or reference column fails the validation (the run ends with
  the ValueError "Invalid data format" and writes no file) before the removal of missing
  values is reached; and a table that passed the validation is left unchanged by that
  removal, whose error "No valid data after removing missing values" is then not raised
  for a table with rows. Lines 138-141 have no effect on any run.
\<close>

lemma missing_value_is_rejected:
  assumes sel: "set (ai_columns @ [human_column]) \<subseteq> set (columns df)"
  shows "((\<exists>r \<in> set (rows df). \<exists>c \<in> set (ai_columns @ [human_column]).
             row_get (columns df) (snd r) c = Inr NaN) \<longrightarrow>
          (\<exists>n vs. analyze_frame p df ai_columns human_column cats =
             \<lparr>printed = Some (n, vs), files = [], outcome = Inl (ValueError InvalidFormat)\<rparr>)) \<and>
         (validate_data df ai_columns human_column cats = Inr Passed \<longrightarrow>
            dropna df (ai_columns @ [human_column]) = Inr df \<and>
            (rows df \<noteq> [] \<longrightarrow>
               outcome (analyze_frame p df ai_columns human_column cats) \<noteq>
                 Inl (ValueError NoValidData)))"
proof (intro conjI impI)
  assume "\<exists>r \<in> set (rows df). \<exists>c \<in> set (ai_columns @ [human_column]).
             row_get (columns df) (snd r) c = Inr NaN"
  then obtain r c where r: "r \<in> set (rows df)" and c: "c \<in> set (ai_columns @ [human_column])"
    and n: "row_get (columns df) (snd r) c = Inr NaN" by blast
  from n have "\<forall>s \<in> set cats. row_get (columns df) (snd r) c \<noteq> Inr (Str s)" by simp
  with r c have "\<exists>r \<in> set (rows df). \<exists>c \<in> set (ai_columns @ [human_column]).
                \<forall>s \<in> set cats. row_get (columns df) (snd r) c \<noteq> Inr (Str s)"
    by blast
  from rejected_run [OF sel this]
  show "\<exists>n vs. analyze_frame p df ai_columns human_column cats =
             \<lparr>printed = Some (n, vs), files = [], outcome = Inl (ValueError InvalidFormat)\<rparr>" .
next
  assume v: "validate_data df ai_columns human_column cats = Inr Passed"
  show d: "dropna df (ai_columns @ [human_column]) = Inr df"
    by (rule dropna_passed [OF v sel])
  assume ne: "rows df \<noteq> []"
  have e: "\<not> df_empty df" using ne sel by (auto simp: df_empty_def)
  from reliability_total [OF sel] obtain k rel where
    H: "get_column df human_column = Inr (map (\<lambda>r. cell_at (snd r) k) (rows df))"
    and rel: "calculate_inter_rater_reliability df ai_columns human_column = Inr rel"
    by blast
  show "outcome (analyze_frame p df ai_columns human_column cats) \<noteq> Inl (ValueError NoValidData)"
    by (auto simp: analyze_frame_def v d e rel H Let_def result_rows_def
             split: sum.splits dest: write_report_error)
qed

lemma missing_value_is_rejected_example:
  "(\<exists>n vs. analyze_frame [] missing_frame [Col 0] (Col 1) [''a'', ''b''] =
      \<lparr>printed = Some (n, vs), files = [], outcome = Inl (ValueError InvalidFormat)\<rparr>) \<and>
   validate_data scenario_1 [Col 0, Col 1, Col 2] (Col 3) [''a'', ''b''] = Inr Passed \<and>
   dropna scenario_1 ([Col 0, Col 1, Col 2] @ [Col 3]) = Inr scenario_1 \<and>
   outcome (analyze_frame [] scenario_1 [Col 0, Col 1, Col 2] (Col 3) [''a'', ''b'']) \<noteq>
     Inl (ValueError NoValidData)"
proof -
  have s1: "set ([Col 0] @ [Col 1]) \<subseteq> set (columns missing_frame)"
    by (simp add: missing_frame_def)
  have m: "\<exists>r \<in> set (rows missing_frame). \<exists>c \<in> set ([Col 0] @ [Col 1]).
             row_get (columns missing_frame) (snd r) c = Inr NaN"
    by (simp add: missing_frame_def row_get_def cell_at_def)
  have s2: "set ([Col 0, Col 1, Col 2] @ [Col 3]) \<subseteq> set (columns scenario_1)"
    by (simp add: scenario_1_def)
  have ne: "rows scenario_1 \<noteq> []"
    by (simp add: scenario_1_def)
  from missing_value_is_rejected [OF s1, where cats = "[''a'', ''b'']" and p = "[]"] m
       missing_value_is_rejected [OF s2, where cats = "[''a'', ''b'']" and p = "[]"]
       scenario_1_passed ne
  show ?thesis by blast
qed

text \<open>
  C2 does not hold of the code. The second row of this table has a missing rater value.
  Removing the rows with missing values (lines 138-141) would leave its two other rows,
  but the run never gets there: the validation, which comes first, rejects row 2 for its
  missing value and the run ends with the ValueError "Invalid data format".
\<close>

theorem missing_value_not_dropped:
  "dropna missing_frame ([Col 0] @ [Col 1]) =
     Inr \<lparr>columns = [Col 0, Col 1],
          rows = [(0, [Str ''a'', Str ''a'']), (2, [Str ''b'', Str ''a''])]\<rparr> \<and>
   validate_data missing_frame [Col 0] (Col 1) [''a'', ''b''] =
     Inr (Rejected 2 [NaN, Str ''a'']) \<and>
   analyze_frame [] missing_frame [Col 0] (Col 1) [''a'', ''b''] =
     \<lparr>printed = Some (2, [NaN, Str ''a'']), files = [],
      outcome = Inl (ValueError InvalidFormat)\<rparr>"
  by (simp add: analyze_frame_def validate_data_def dropna_def missing_frame_def row_get_def
      cell_at_def in_categories_def)

subsection \<open>The results CSV\<close>

lemma result_rows_raises:
  assumes "\<not> df_empty d" and "get_column d h = Inr final"
  shows "result_rows (set_column d c final) ai h = Inl NameError"
proof -
  have "length final = length (rows d)" by (rule get_column_nth(1) [OF assms(2)])
  from set_column_labels(2) [OF this, of c] assms(1)
  have "rows (set_column d c final) \<noteq> []" by (auto simp: df_empty_def)
  then show ?thesis by (simp add: result_rows_def)
qed

lemma analyze_frame_no_csv:
  "CsvFile name rs \<notin> set (files (analyze_frame p df ai h cats)) \<and>
   outcome (analyze_frame p df ai h cats) \<noteq> Inr ret"
  by (auto simp: analyze_frame_def raise_def Let_def result_rows_raises
           split: sum.splits validation.splits if_splits)

text \<open>
  C1 does not hold of the code: no run writes the results CSV, and no run returns. After
  a passed validation the frame has rows, and building the flag columns for the first of
  them raises NameError (see \<open>result_rows\<close>); every other run ends earlier.
\<close>

theorem results_csv_never_written:
  "(\<forall>name rs. CsvFile name rs \<notin>
       set (files (analyze_coding_agreement env file_path delimiter encoding ai_columns
                     human_column valid_categories))) \<and>
   (\<forall>ret. outcome (analyze_coding_agreement env file_path delimiter encoding ai_columns
                     human_column valid_categories) \<noteq> Inr ret)"
  by (auto simp: analyze_coding_agreement_def raise_def analyze_frame_no_csv
           split: sum.splits prod.splits)

subsection \<open>Cohen's Kappa on constant and on identical series\<close>

lemma chance_agreement_sum:
  "chance_agreement y1 y2 =
     (\<Sum>k \<in> set y1 \<union> set y2.
        (of_nat (count_list y1 k) / of_nat (length y1)) *
        (of_nat (count_list y2 k) / of_nat (length y2)))"
  by (simp add: chance_agreement_def sum_list_distinct_conv_sum_set)

lemma count_list_full: "count_list y k = length y \<Longrightarrow> set y \<subseteq> {k}"
proof (induction y)
  case Nil
  then show ?case by simp
next
  case (Cons x xs)
  show ?case
  proof (cases "x = k")
    case True
    with Cons show ?thesis by simp
  next
    case False
    with Cons.prems count_le_length [of xs k] show ?thesis by simp
  qed
qed

lemma count_list_replicate: "count_list (replicate n c) k = (if k = c then n else 0)"
  by (induction n) auto

lemma constant_replicate: "set y = {c} \<Longrightarrow> y = replicate (length y) c"
  by (induction y) (auto simp: replicate_length_same intro: replicate_eqI)

lemma agree_replicate:
  "length y = n \<Longrightarrow>
   length (filter (\<lambda>p. fst p = snd p) (zip (replicate n c) y)) = count_list y c"
  by (induction y arbitrary: n) auto

lemma agree_sym:
  "length (filter (\<lambda>p. fst p = snd p) (zip y1 y2)) =
   length (filter (\<lambda>p. fst p = snd p) (zip y2 y1))"
proof (induction y1 arbitrary: y2)
  case Nil
  then show ?case by simp
next
  case (Cons a y1)
  then show ?case by (cases y2) auto
qed

lemma kappa_sym:
  assumes "length y1 = length y2"
  shows "cohen_kappa_score y1 y2 = cohen_kappa_score y2 y1"
proof -
  have "agreement_probability y1 y2 = agreement_probability y2 y1"
    using assms agree_sym [of y1 y2] by (simp add: agreement_probability_def)
  moreover have "chance_agreement y1 y2 = chance_agreement y2 y1"
    by (simp add: chance_agreement_sum Un_commute mult.commute)
  ultimately show ?thesis by (simp add: cohen_kappa_score_def)
qed

lemma kappa_replicate:
  assumes pos: "0 < n" and len: "length y2 = n"
  shows "cohen_kappa_score (replicate n c) y2 = (if set y2 = {c} then None else Some 0)"
proof -
  have po: "agreement_probability (replicate n c) y2 = of_nat (count_list y2 c) / of_nat n"
    by (simp add: agreement_probability_def agree_replicate [OF len])
  have "chance_agreement (replicate n c) y2 =
     (\<Sum>k \<in> set (replicate n c) \<union> set y2. if k = c then of_nat (count_list y2 c) / of_nat n else 0)"
    unfolding chance_agreement_sum
    by (rule sum.cong [OF refl]) (use pos len in \<open>simp add: count_list_replicate\<close>)
  also have "\<dots> = of_nat (count_list y2 c) / of_nat n"
    using pos by (simp add: sum.delta)
  finally have pe: "chance_agreement (replicate n c) y2 = of_nat (count_list y2 c) / of_nat n" .
  have full: "(1 - (of_nat (count_list y2 c) / of_nat n :: rat) = 0) = (set y2 = {c})"
  proof
    assume "1 - (of_nat (count_list y2 c) / of_nat n :: rat) = 0"
    then have "(of_nat (count_list y2 c) :: rat) = of_nat n" using pos by (simp add: field_simps)
    then have "count_list y2 c = length y2" using len by (simp only: of_nat_eq_iff)
    from count_list_full [OF this] pos len show "set y2 = {c}" by (cases y2) auto
  next
    assume "set y2 = {c}"
    from constant_replicate [OF this] have "count_list y2 c = n"
      using len by (metis count_list_replicate)
    then show "1 - (of_nat (count_list y2 c) / of_nat n :: rat) = 0" using pos by simp
  qed
  show ?thesis
    by (simp only: cohen_kappa_score_def po pe full Let_def) simp
qed

lemma kappa_first_constant:
  assumes n: "y1 \<noteq> []" and len: "length y1 = length y2" and c: "set y1 = {c}"
  shows "cohen_kappa_score y1 y2 = (if set y2 = {c} then None else Some 0)"
proof -
  have y1: "y1 = replicate (length y2) c" using constant_replicate [OF c] len by simp
  have pos: "0 < length y2" using n len by auto
  from kappa_replicate [OF pos refl, of c] y1 show ?thesis by simp
qed

text \<open>
  C5. When at least one of the two series is constant, the Kappa computation gives a
  defined result: the undefined value (NaN) when both series are constant with the same
  code, as in scenario 2, and otherwise exactly 0. It is a total function, so there is
  no input on which it fails.
\<close>

theorem kappa_constant_series:
  assumes "y1 \<noteq> []" and "length y1 = length y2"
    and "(\<exists>c. set y1 = {c}) \<or> (\<exists>c. set y2 = {c})"
  shows "cohen_kappa_score y1 y2 = (if set y1 = set y2 then None else Some 0)"
proof -
  from assms(3) show ?thesis
  proof
    assume "\<exists>c. set y1 = {c}"
    then obtain c where c: "set y1 = {c}" by blast
    from kappa_first_constant [OF assms(1,2) c] c show ?thesis by auto
  next
    assume "\<exists>c. set y2 = {c}"
    then obtain c where c: "set y2 = {c}" by blast
    have "y2 \<noteq> []" using assms(1,2) by auto
    from kappa_first_constant [OF this assms(2) [symmetric] c] c kappa_sym [OF assms(2)]
    show ?thesis by auto
  qed
qed


theorem kappa_constant_series_witness:
  "cohen_kappa_score [Str ''a'', Str ''a'', Str ''a'', Str ''a'']
     [Str ''a'', Str ''a'', Str ''a'', Str ''a''] = None \<and>
   cohen_kappa_score [Str ''a'', Str ''a'', Str ''a'', Str ''a'']
     [Str ''a'', Str ''b'', Str ''a'', Str ''b''] = Some 0 \<and>
   cohen_kappa_score [Str ''a'', Str ''b'', Str ''b'', Str ''a'']
     [Str ''b'', Str ''b'', Str ''b'', Str ''b''] = Some 0"
proof -
  let ?a = "[Str ''a'', Str ''a'', Str ''a'', Str ''a'']"
  let ?ab = "[Str ''a'', Str ''b'', Str ''a'', Str ''b'']"
  let ?ba = "[Str ''a'', Str ''b'', Str ''b'', Str ''a'']"
  let ?b = "[Str ''b'', Str ''b'', Str ''b'', Str ''b'']"
  have c1: "(\<exists>c. set ?a = {c}) \<or> (\<exists>c. set ?a = {c})" by simp
  have c2: "(\<exists>c. set ?a = {c}) \<or> (\<exists>c. set ?ab = {c})" by simp
  have c3: "(\<exists>c. set ?ba = {c}) \<or> (\<exists>c. set ?b = {c})" by simp
  have "cohen_kappa_score ?a ?a = None"
    using kappa_constant_series [of ?a ?a, OF _ _ c1] by simp
  moreover have "cohen_kappa_score ?a ?ab = Some 0"
    using kappa_constant_series [of ?a ?ab, OF _ _ c2] by auto
  moreover have "cohen_kappa_score ?ba ?b = Some 0"
    using kappa_constant_series [of ?ba ?b, OF _ _ c3] by auto
  ultimately show ?thesis by blast
qed

lemma agree_self: "length (filter (\<lambda>p. fst p = snd p) (zip y y)) = length y"
  by (induction y) auto

lemma count_square_sum:
  assumes "a \<in> set y" and "b \<in> set y" and "a \<noteq> b"
  shows "(\<Sum>k \<in> set y. count_list y k * count_list y k) < length y * length y"
proof -
  have lt: "count_list y k < length y" for k
  proof (rule ccontr)
    assume "\<not> count_list y k < length y"
    with count_le_length [of y k] have "count_list y k = length y" by simp
    from count_list_full [OF this] assms show False by auto
  qed
  have pos: "0 < count_list y k" if "k \<in> set y" for k
    using that count_list_0_iff [of y k] by auto
  have "(\<Sum>k \<in> set y. count_list y k * count_list y k) <
        (\<Sum>k \<in> set y. count_list y k * length y)"
    by (rule sum_strict_mono) (use assms(1) lt pos in auto)
  also have "\<dots> = (\<Sum>k \<in> set y. count_list y k) * length y"
    by (simp add: sum_distrib_right)
  also have "\<dots> = length y * length y"
    by (simp add: sum_count_set)
  finally show ?thesis .
qed

lemma chance_self:
  "chance_agreement y y =
     of_nat (\<Sum>k \<in> set y. count_list y k * count_list y k) / of_nat (length y * length y)"
  by (simp add: chance_agreement_sum sum_divide_distrib)

text \<open>
  C7, as the formula has it. The Kappa of a series against a copy of itself is 1 when
  the series holds at least two distinct codes, and undefined (NaN) when it is constant.
\<close>

theorem kappa_with_itself:
  assumes "y \<noteq> []"
  shows "cohen_kappa_score y y = (if \<exists>a \<in> set y. \<exists>b \<in> set y. a \<noteq> b then Some 1 else None)"
proof (cases "\<exists>a \<in> set y. \<exists>b \<in> set y. a \<noteq> b")
  case True
  then obtain a b where ab: "a \<in> set y" "b \<in> set y" "a \<noteq> b" by blast
  have po: "agreement_probability y y = 1"
    using assms by (simp add: agreement_probability_def agree_self)
  have n: "0 < length y * length y" using assms by simp
  have "(of_nat (\<Sum>k \<in> set y. count_list y k * count_list y k) :: rat) < of_nat (length y * length y)"
    using count_square_sum [OF ab] by (simp only: of_nat_less_iff)
  then have "chance_agreement y y < 1"
    using n unfolding chance_self by (simp only: divide_less_eq_1_pos of_nat_0_less_iff)
  then have "1 - chance_agreement y y \<noteq> 0" by simp
  then show ?thesis using True by (simp add: cohen_kappa_score_def po Let_def)
next
  case False
  from assms obtain c where "c \<in> set y" by (cases y) auto
  with False have "set y = {c}" by auto
  from kappa_first_constant [OF assms refl this] this False show ?thesis by simp
qed

theorem kappa_with_itself_witness:
  "cohen_kappa_score [Str ''a'', Str ''b'', Str ''a'', Str ''a'']
     [Str ''a'', Str ''b'', Str ''a'', Str ''a''] = Some 1"
proof -
  let ?y = "[Str ''a'', Str ''b'', Str ''a'', Str ''a'']"
  have d: "\<exists>a \<in> set ?y. \<exists>b \<in> set ?y. a \<noteq> b"
    by (intro bexI [of _ "Str ''a''"] bexI [of _ "Str ''b''"]) simp_all
  have n: "?y \<noteq> []" by simp
  from kappa_with_itself [OF n] d show ?thesis by (simp only: if_True)
qed

text \<open>
  The claim C7 as stated fails on a constant series: its Kappa against itself is not 1.
\<close>

theorem kappa_with_itself_not_one:
  "cohen_kappa_score [Str ''a'', Str ''a'', Str ''a'', Str ''a'']
     [Str ''a'', Str ''a'', Str ''a'', Str ''a''] \<noteq> Some 1"
  by (simp add: cohen_kappa_score_def agreement_probability_def chance_agreement_def Let_def)

subsection \<open>Significance markers in the comparison report\<close>

lemma emit_lines:
  assumes "\<forall>s \<in> set steps. \<forall>l. s = Inr l \<longrightarrow> P l"
  shows "\<forall>l \<in> set (fst (emit steps)). P l"
  using assms
proof (induction steps)
  case Nil
  then show ?case by simp
next
  case (Cons s steps)
  then show ?case by (cases s) auto
qed

lemma section_steps:
  "\<forall>l \<in> set (fst (comparison_section symb ar)). marked_or_raw symb l"
  unfolding comparison_section_def
  by (auto simp: Let_def guard_def marked_or_raw_def is_p_label_def raw_test_line_def
           split: option.splits intro!: emit_lines)


text \<open>
  C8, as the code has it. In the comparison section every p-value that is shown with a
  marker has the marker the symbol function gives for that very p-value; that is so on
  the lines of the corrected p-values and of the Mann-Whitney U tests. The only p-values
  shown without a marker are the raw ones on the three lines of the parametric tests
  (the two t-tests and the Z-test).
\<close>

theorem corrected_p_values_marked:
  "\<forall>l \<in> set (fst (comparison_section symb ar)).
     \<forall>pm \<in> set (shown_p_values l).
       (snd pm = Some (symb (fst pm)) \<and> \<not> raw_test_line l) \<or>
       (snd pm = None \<and> raw_test_line l)"
  using section_steps [of symb ar] by (simp add: marked_or_raw_def)

lemma sample_section:
  "fst (comparison_section significance_stars sample_results) =
     [[Lit ''=== Statistical Comparison Results ===''],
      [Lit ''Methods: Fisher'', Uni 8217,
       Lit ''s z transformation + Independent t-test (Kappa) and Z-test (AI-Human Disagreement Rate)''],
      [Lit ''Inter-rater Comparison: t='', Fmt 3 (Some 2), Lit '', p='', Fmt 6 (Some (1 / 25)),
       Lit '', Cohen's d='', Fmt 3 (Some 1)],
      [Lit ''Intra-rater Comparison: t='', Fmt 3 (Some 3), Lit '', p='', Fmt 6 (Some (1 / 200)),
       Lit '', Cohen's d='', Fmt 3 (Some 2)],
      [Lit ''AI-Human Disagreement Rate Comparison: Z='', Fmt 4 (Some 2), Lit '', p='',
       Fmt 6 (Some (1 / 20))],
      [Lit ''=== Multiple Comparison Corrected p-values (Benjamini-Hochberg) ===''],
      [Lit ''Inter-rater Comparison (Corrected): p='', Fmt 6 (Some (3 / 50)), Lit '' '',
       Marker ''ns''],
      [Lit ''Intra-rater Comparison (Corrected): p='', Fmt 6 (Some (3 / 200)), Lit '' '',
       Marker ''*''],
      [Lit ''AI-Human Disagreement Rate Comparison (Corrected): p='', Fmt 6 (Some (1 / 20)),
       Lit '' '', Marker ''ns''],
      [Lit ''=== Non-parametric Test Verification ===''],
      [Lit ''Inter-rater Mann-Whitney U: p='', Fmt 6 (Some (3 / 100)), Lit '' '', Marker ''*''],
      [Lit ''Intra-rater Mann-Whitney U: p='', Fmt 6 (Some (1 / 125)), Lit '' '', Marker ''**'']]"
  by (simp add: comparison_section_def sample_results_def significance_stars_def guard_def)

theorem corrected_p_values_marked_witness:
  "[Lit ''Intra-rater Comparison (Corrected): p='', Fmt 6 (Some (3 / 200)), Lit '' '',
    Marker ''*''] \<in> set (fst (comparison_section significance_stars sample_results)) \<and>
   (Some (3 / 200), Some ''*'') \<in>
     set (shown_p_values [Lit ''Intra-rater Comparison (Corrected): p='', Fmt 6 (Some (3 / 200)),
                          Lit '' '', Marker ''*'']) \<and>
   Some ''*'' = Some (significance_stars (Some (3 / 200))) \<and>
   \<not> raw_test_line [Lit ''Intra-rater Comparison (Corrected): p='', Fmt 6 (Some (3 / 200)),
                     Lit '' '', Marker ''*'']"
proof -
  let ?l = "[Lit ''Intra-rater Comparison (Corrected): p='', Fmt 6 (Some (3 / 200)), Lit '' '',
             Marker ''*'']"
  have l: "?l \<in> set (fst (comparison_section significance_stars sample_results))"
    by (simp add: sample_section)
  have p: "(Some (3 / 200), Some ''*'') \<in> set (shown_p_values ?l)"
    by (simp add: is_p_label_def)
  from corrected_p_values_marked [rule_format, OF l p] l p show ?thesis by auto
qed

text \<open>
  The claim C8 as stated fails: the third line written for these results shows the raw
  p-value 0.04 of the inter-rater t-test and no marker, though the symbol function gives
  one for it.
\<close>

theorem raw_p_value_without_marker:
  "fst (comparison_section significance_stars sample_results) ! 2 =
     [Lit ''Inter-rater Comparison: t='', Fmt 3 (Some 2), Lit '', p='', Fmt 6 (Some (1 / 25)),
      Lit '', Cohen's d='', Fmt 3 (Some 1)] \<and>
   shown_p_values (fst (comparison_section significance_stars sample_results) ! 2) =
     [(Some (1 / 25), None)] \<and>
   significance_stars (Some (1 / 25)) = ''*''"
  by (simp add: sample_section is_p_label_def significance_stars_def)

subsection \<open>Path sanitization\<close>

lemma split_on_not_Nil: "split_on s xs \<noteq> []"
  by (induction xs) (auto split: list.splits)

lemma split_on_parts_sep: "p \<in> set (split_on s xs) \<Longrightarrow> s \<notin> set p"
proof (induction xs arbitrary: p)
  case Nil
  then show ?case by simp
next
  case (Cons c cs)
  then show ?case
    by (cases "split_on s cs") (auto simp: split_on_not_Nil split: if_splits)
qed

lemma split_on_parts_chars: "p \<in> set (split_on s xs) \<Longrightarrow> x \<in> set p \<Longrightarrow> x \<in> set xs"
proof (induction xs arbitrary: p)
  case Nil
  then show ?case by simp
next
  case (Cons c cs)
  show ?case
  proof (cases "split_on s cs")
    case Nil
    then show ?thesis by (simp add: split_on_not_Nil)
  next
    case (Cons q qs)
    with Cons.prems Cons.IH [of q] Cons.IH [of p] show ?thesis
      by (auto split: if_splits)
  qed
qed

lemma split_on_no_sep: "s \<notin> set p \<Longrightarrow> split_on s p = [p]"
  by (induction p) auto

lemma split_on_append: "s \<notin> set p \<Longrightarrow> split_on s (p @ s # rest) = p # split_on s rest"
  by (induction p) auto

lemma split_join:
  "cs \<noteq> [] \<Longrightarrow> \<forall>p \<in> set cs. s \<notin> set p \<Longrightarrow> split_on s (join s cs) = cs"
  by (induction s cs rule: join.induct) (auto simp: split_on_no_sep split_on_append)

lemma normal_Nil: "normal_comps i []"
  by (simp add: normal_comps_def)

lemma normal_prefix:
  assumes "normal_comps i (xs @ ys)"
  shows "normal_comps i xs"
proof -
  have a: "\<forall>c \<in> set xs. c \<noteq> [] \<and> c \<noteq> dot \<and> sep \<notin> set c"
    using assms by (simp add: normal_comps_def)
  have b: "i = 0 \<and> (\<forall>k < j. xs ! k = dotdot)" if j: "j < length xs" and d: "xs ! j = dotdot" for j
  proof -
    from j d have "j < length (xs @ ys)" and "(xs @ ys) ! j = dotdot"
      by (simp_all add: nth_append)
    with assms have i: "i = 0" and k: "\<forall>k < j. (xs @ ys) ! k = dotdot"
      unfolding normal_comps_def by blast+
    have "xs ! k = dotdot" if "k < j" for k
      using k that j by (auto simp: nth_append)
    with i show ?thesis by simp
  qed
  from a b show ?thesis unfolding normal_comps_def by blast
qed

lemma normal_step:
  assumes n: "normal_comps i nc" and p: "sep \<notin> set part"
  shows "normal_comps i (normpath_step i nc part)"
proof -
  consider (skip) "part = [] \<or> part = dot"
    | (plain) "part \<noteq> []" "part \<noteq> dot" "part \<noteq> dotdot"
    | (up_first) "part = dotdot" "i = 0" "nc = []"
    | (up_more) "part = dotdot" "nc \<noteq> []" "last nc = dotdot"
    | (pop) "part = dotdot" "nc \<noteq> []" "last nc \<noteq> dotdot"
    | (root) "part = dotdot" "nc = []" "i \<noteq> 0"
    by (cases "part = dotdot") (auto simp: dot_def dotdot_def)
  then show ?thesis
  proof cases
    case skip
    then show ?thesis using n by (auto simp: normpath_step_def)
  next
    case plain
    then have "normpath_step i nc part = nc @ [part]" by (simp add: normpath_step_def)
    moreover have "normal_comps i (nc @ [part])"
      using n p plain by (auto simp: normal_comps_def nth_append)
    ultimately show ?thesis by simp
  next
    case up_first
    then have "normpath_step i nc part = [dotdot]"
      by (simp add: normpath_step_def dot_def dotdot_def)
    then show ?thesis using up_first by (simp add: normal_comps_def dot_def dotdot_def sep_def)
  next
    case up_more
    then have s: "normpath_step i nc part = nc @ [dotdot]"
      by (simp add: normpath_step_def dot_def dotdot_def)
    have l: "nc ! (length nc - 1) = dotdot" using up_more by (simp add: last_conv_nth)
    have lt: "length nc - 1 < length nc" using up_more by simp
    from n l lt have i0: "i = 0" and pre: "\<forall>k < length nc - 1. nc ! k = dotdot"
      unfolding normal_comps_def by blast+
    have all: "\<forall>k < length nc. nc ! k = dotdot"
    proof (intro allI impI)
      fix k assume "k < length nc"
      then have "k < length nc - 1 \<or> k = length nc - 1" by auto
      with pre l show "nc ! k = dotdot" by auto
    qed
    have "normal_comps i (nc @ [dotdot])"
      using n i0 all by (auto simp: normal_comps_def nth_append dot_def dotdot_def sep_def)
    with s show ?thesis by simp
  next
    case pop
    then have s: "normpath_step i nc part = butlast nc"
      by (simp add: normpath_step_def dot_def dotdot_def)
    have "nc = butlast nc @ [last nc]" using pop by simp
    with n normal_prefix [of i "butlast nc" "[last nc]"] have "normal_comps i (butlast nc)"
      by simp
    with s show ?thesis by simp
  next
    case root
    then have "normpath_step i nc part = nc"
      by (simp add: normpath_step_def dot_def dotdot_def)
    then show ?thesis using n by simp
  qed
qed

lemma normal_foldl:
  "normal_comps i nc \<Longrightarrow> \<forall>p \<in> set parts. sep \<notin> set p \<Longrightarrow>
   normal_comps i (foldl (normpath_step i) nc parts)"
  by (induction parts arbitrary: nc) (auto simp: normal_step)


lemma step_keep:
  assumes "normal_comps i (acc @ [x])"
  shows "normpath_step i acc x = acc @ [x]"
proof (cases "x = dotdot")
  case False
  with assms show ?thesis by (simp add: normpath_step_def normal_comps_def)
next
  case True
  have x: "x \<noteq> []" "x \<noteq> dot" using assms by (simp_all add: normal_comps_def)
  have "(acc @ [x]) ! length acc = dotdot" using True by simp
  with assms have i: "i = 0" and k: "\<forall>k < length acc. (acc @ [x]) ! k = dotdot"
    unfolding normal_comps_def by (metis length_append_singleton lessI)+
  show ?thesis
  proof (cases "acc = []")
    case True
    with i x show ?thesis by (simp add: normpath_step_def)
  next
    case False
    then have "length acc - 1 < length acc" by simp
    with k have "acc ! (length acc - 1) = dotdot" by (metis nth_append)
    with False have "last acc = dotdot" by (simp add: last_conv_nth)
    with False x show ?thesis by (simp add: normpath_step_def)
  qed
qed

lemma foldl_normal:
  "normal_comps i (acc @ xs) \<Longrightarrow> foldl (normpath_step i) acc xs = acc @ xs"
proof (induction xs arbitrary: acc)
  case Nil
  then show ?case by simp
next
  case (Cons x xs)
  from Cons.prems have n: "normal_comps i ((acc @ [x]) @ xs)" by simp
  from normal_prefix [OF n] have "normpath_step i acc x = acc @ [x]" by (rule step_keep)
  with Cons.IH [OF n] show ?case by simp
qed

lemma foldl_skip_empty:
  "foldl (normpath_step i) nc (replicate m [] @ parts) = foldl (normpath_step i) nc parts"
  by (induction m) (simp_all add: normpath_step_def)

lemma join_Cons: "join s (c # rest) = c @ (if rest = [] then [] else s # join s rest)"
  by (cases rest) simp_all

lemma join_first:
  assumes "normal_comps i cs"
  shows "join sep cs = [] \<and> cs = [] \<or> join sep cs \<noteq> [] \<and> cs \<noteq> [] \<and> hd (join sep cs) \<noteq> sep"
proof (cases cs)
  case Nil
  then show ?thesis by simp
next
  case (Cons c rest)
  with assms have "c \<noteq> []" and "sep \<notin> set c" by (simp_all add: normal_comps_def)
  then have "hd c \<noteq> sep" by (cases c) auto
  with \<open>c \<noteq> []\<close> show ?thesis unfolding Cons join_Cons by simp
qed

lemma slashes_replicate:
  assumes "i \<le> 2" and "j = [] \<or> hd j \<noteq> sep"
  shows "initial_slashes_of (replicate i sep @ j) = i"
proof -
  have t: "take (Suc 0) j \<noteq> [sep]" using assms(2) by (cases j) auto
  from assms(1) consider "i = 0" | "i = 1" | "i = 2" by linarith
  then show ?thesis
  proof cases
    case 1
    with t show ?thesis by (simp add: initial_slashes_of_def startswith_def)
  next
    case 2
    with t show ?thesis by (simp add: initial_slashes_of_def startswith_def)
  next
    case 3
    with t show ?thesis
      by (simp add: initial_slashes_of_def startswith_def numeral_2_eq_2 numeral_3_eq_3)
  qed
qed

lemma slashes_le: "initial_slashes_of p \<le> 2"
  by (simp add: initial_slashes_of_def)

lemma split_on_replicate:
  "split_on s (replicate i s @ j) = replicate i [] @ split_on s j"
  by (induction i) simp_all

lemma normpath_alt:
  "normpath path =
     (if path = [] then dot
      else let i = initial_slashes_of path;
               comps = foldl (normpath_step i) [] (split_on sep path);
               result = replicate i sep @ join sep comps
           in if result = [] then dot else result)"
  by (simp add: normpath_def initial_slashes_of_def Let_def)

lemma normpath_dot: "normpath dot = dot"
  by (simp add: normpath_alt initial_slashes_of_def startswith_def normpath_step_def
      dot_def sep_def Let_def)

lemma normpath_normal:
  assumes "i \<le> 2" and n: "normal_comps i cs" and ne: "replicate i sep @ join sep cs \<noteq> []"
  shows "normpath (replicate i sep @ join sep cs) = replicate i sep @ join sep cs"
proof -
  let ?res = "replicate i sep @ join sep cs"
  from join_first [OF n] have j: "join sep cs = [] \<or> hd (join sep cs) \<noteq> sep" by blast
  have sl: "initial_slashes_of ?res = i" by (rule slashes_replicate [OF assms(1) j])
  have nosep: "\<forall>p \<in> set cs. sep \<notin> set p" using n by (simp add: normal_comps_def)
  have "foldl (normpath_step i) [] (split_on sep ?res) = cs"
  proof (cases "cs = []")
    case True
    have "split_on sep ?res = replicate i [] @ [[]]"
      using True split_on_replicate [of sep i "[]"] by simp
    then have "foldl (normpath_step i) [] (split_on sep ?res) = foldl (normpath_step i) [] [[]]"
      by (simp only: foldl_skip_empty)
    also have "\<dots> = []" by (simp add: normpath_step_def)
    finally show ?thesis using True by simp
  next
    case False
    have "foldl (normpath_step i) [] (split_on sep ?res) =
          foldl (normpath_step i) [] (replicate i [] @ cs)"
      by (simp only: split_on_replicate split_join [OF False nosep])
    also have "\<dots> = foldl (normpath_step i) [] cs" by (rule foldl_skip_empty)
    also have "\<dots> = cs" using foldl_normal [of i "[]" cs] n by simp
    finally show ?thesis .
  qed
  with sl ne show ?thesis by (auto simp: normpath_alt [of ?res] Let_def)
qed

lemma normpath_idem: "normpath (normpath p) = normpath p"
proof (cases "p = []")
  case True
  then have "normpath p = dot" by (simp add: normpath_def)
  then show ?thesis by (simp add: normpath_dot)
next
  case False
  let ?i = "initial_slashes_of p"
  let ?cs = "foldl (normpath_step ?i) [] (split_on sep p)"
  let ?res = "replicate ?i sep @ join sep ?cs"
  have n: "normal_comps ?i ?cs"
    by (rule normal_foldl [OF normal_Nil]) (simp add: split_on_parts_sep)
  show ?thesis
  proof (cases "?res = []")
    case True
    with False have "normpath p = dot" by (auto simp: normpath_alt Let_def)
    then show ?thesis by (simp add: normpath_dot)
  next
    case r: False
    with False have "normpath p = ?res" by (auto simp: normpath_alt Let_def)
    with normpath_normal [OF slashes_le n r] show ?thesis by simp
  qed
qed

lemma step_parts: "set (normpath_step i nc part) \<subseteq> set nc \<union> {part}"
  by (auto simp: normpath_step_def dest: in_set_butlastD)

lemma foldl_parts: "set (foldl (normpath_step i) nc parts) \<subseteq> set nc \<union> set parts"
proof (induction parts arbitrary: nc)
  case Nil
  then show ?case by simp
next
  case (Cons x xs)
  from Cons.IH [of "normpath_step i nc x"] step_parts [of i nc x] show ?case by auto
qed

lemma join_chars: "x \<in> set (join s cs) \<Longrightarrow> x = s \<or> (\<exists>c \<in> set cs. x \<in> set c)"
  by (induction s cs rule: join.induct) auto

lemma normpath_chars:
  assumes "x \<in> set (normpath p)"
  shows "x \<in> set p \<or> x = sep \<or> x = 46"
proof (cases "p = []")
  case True
  with assms show ?thesis by (simp add: normpath_alt dot_def)
next
  case False
  let ?i = "initial_slashes_of p"
  let ?cs = "foldl (normpath_step ?i) [] (split_on sep p)"
  from assms False have "x = 46 \<or> x = sep \<or> x \<in> set (join sep ?cs)"
    by (auto simp: normpath_alt Let_def dot_def split: if_splits)
  moreover have "x \<in> set p" if "c \<in> set ?cs" and "x \<in> set c" for c
  proof -
    from that(1) foldl_parts [of ?i "[]" "split_on sep p"] have "c \<in> set (split_on sep p)" by auto
    from split_on_parts_chars [OF this that(2)] show ?thesis .
  qed
  ultimately show ?thesis using join_chars [of x sep ?cs] by blast
qed


text \<open>
  C10, as the code has it. Cleaning a cleaned path changes nothing whenever the cleaned
  path is in NFKC form; "/" and "." are not of category C in the Unicode database, which
  is what the first two hypotheses say of the parameter.
\<close>

theorem clean_path_idempotent_when_normalized:
  assumes "\<not> category_C db sep" and "\<not> category_C db 46"
    and "normalize_NFKC db (clean_path db p) = clean_path db p"
  shows "clean_path db (clean_path db p) = clean_path db p"
proof -
  let ?r = "filter (\<lambda>c. \<not> category_C db c) (normalize_NFKC db p)"
  have q: "clean_path db p = normpath ?r" by (simp add: clean_path_def Let_def)
  have "\<not> category_C db x" if "x \<in> set (normpath ?r)" for x
    using normpath_chars [OF that] assms(1,2) by auto
  then have nc: "\<forall>x \<in> set (normpath ?r). \<not> category_C db x" by blast
  have f: "filter (\<lambda>c. \<not> category_C db c) (normpath ?r) = normpath ?r"
    by (rule filter_True) (rule nc)
  have n: "normalize_NFKC db (normpath ?r) = normpath ?r"
    using assms(3) by (simp only: q)
  have "clean_path db (normpath ?r) =
        normpath (filter (\<lambda>c. \<not> category_C db c) (normalize_NFKC db (normpath ?r)))"
    by (simp only: clean_path_def Let_def)
  also have "\<dots> = normpath (normpath ?r)"
    by (simp only: n f)
  also have "\<dots> = normpath ?r" by (rule normpath_idem)
  finally show ?thesis by (simp only: q)
qed

lemma sample_path_cleaned:
  "clean_path sample_db [47, 100, 47, 47, 46, 47, 7, 120, 47, 46, 46, 47, 102, 46, 116] =
     [47, 100, 47, 102, 46, 116]"
  by code_simp

theorem clean_path_idempotent_when_normalized_witness:
  "clean_path sample_db [47, 100, 47, 47, 46, 47, 7, 120, 47, 46, 46, 47, 102, 46, 116] =
     [47, 100, 47, 102, 46, 116] \<and>
   clean_path sample_db
     (clean_path sample_db [47, 100, 47, 47, 46, 47, 7, 120, 47, 46, 46, 47, 102, 46, 116]) =
     [47, 100, 47, 102, 46, 116]"
proof -
  let ?p = "[47, 100, 47, 47, 46, 47, 7, 120, 47, 46, 46, 47, 102, 46, 116] :: ustring"
  have a: "\<not> category_C sample_db sep" by code_simp
  have b: "\<not> category_C sample_db 46" by code_simp
  have c: "normalize_NFKC sample_db (clean_path sample_db ?p) = clean_path sample_db ?p"
    by code_simp
  have i: "clean_path sample_db (clean_path sample_db ?p) = clean_path sample_db ?p"
    by (rule clean_path_idempotent_when_normalized [OF a b c])
  show ?thesis
  proof (rule conjI)
    show "clean_path sample_db ?p = [47, 100, 47, 102, 46, 116]"
      by (rule sample_path_cleaned)
    show "clean_path sample_db (clean_path sample_db ?p) = [47, 100, 47, 102, 46, 116]"
      using i sample_path_cleaned by (rule trans)
  qed
qed

text \<open>
  The claim C10 as stated fails. In the path "e", U+0001, U+0301 the control character
  keeps the accent from composing with the letter; once it is stripped, the result "e",
  U+0301 is no longer in NFKC form, and cleaning it again composes the two into U+00E9.
\<close>

theorem clean_path_not_idempotent:
  "clean_path sample_db [101, 1, 769] = [101, 769] \<and>
   clean_path sample_db (clean_path sample_db [101, 1, 769]) = [233]"
  by code_simp

end
